theory Spec2Isabelle
  imports Main "HOL-Library.AList"
begin

section \<open>Python values used by the two CSV processors\<close>

text \<open>
  Strings are \<open>string\<close>; the text handled here is ASCII. A dict is an association
  list: \<open>AList.update\<close> overwrites the value of an existing key in place and appends a
  new key at the end, which is the insertion order a Python dict keeps; \<open>map_of\<close> is the
  lookup.
\<close>

datatype py_exception = IndexError | KeyError | StopIteration | ReadError

text \<open>
  A float is kept as the decimal that was read (sign, digits, power of ten), or as an
  infinity or a NaN; rounding to binary64 is not part of the model.
\<close>

datatype pyfloat = FDec bool nat int | FInf bool | FNaN

datatype pyval = VInt int | VFloat pyfloat | VStr string

subsection \<open>\<open>str.strip\<close>, \<open>str.lower\<close>, \<open>in\<close>, indexing, \<open>max\<close>\<close>

definition py_isspace :: "char \<Rightarrow> bool" where
  "py_isspace c = (c \<in> set [CHR 0x09, CHR 0x0A, CHR 0x0B, CHR 0x0C, CHR 0x0D,
                             CHR 0x1C, CHR 0x1D, CHR 0x1E, CHR 0x1F, CHR 0x20])"

definition py_strip :: "string \<Rightarrow> string" where
  "py_strip s = rev (dropWhile py_isspace (rev (dropWhile py_isspace s)))"

definition py_lower_char :: "char \<Rightarrow> char" where
  "py_lower_char c =
     (case map_of (zip ''ABCDEFGHIJKLMNOPQRSTUVWXYZ'' ''abcdefghijklmnopqrstuvwxyz'') c of
        Some l \<Rightarrow> l | None \<Rightarrow> c)"

definition py_lower :: "string \<Rightarrow> string" where
  "py_lower s = map py_lower_char s"

text \<open>\<open>py_in kw s\<close> is Python's \<open>kw in s\<close> on strings: \<open>kw\<close> occurs in \<open>s\<close>.\<close>

fun py_in :: "string \<Rightarrow> string \<Rightarrow> bool" where
  "py_in kw [] = (kw = [])"
| "py_in kw (c # cs) = (take (length kw) (c # cs) = kw \<or> py_in kw cs)"

text \<open>List indexing: a negative index counts from the end, out of range raises.\<close>

definition py_getitem :: "'a list \<Rightarrow> int \<Rightarrow> py_exception + 'a" where
  "py_getitem xs i =
     (if 0 \<le> i \<and> i < int (length xs) then Inr (xs ! nat i)
      else if i < 0 \<and> - int (length xs) \<le> i then Inr (xs ! nat (int (length xs) + i))
      else Inl IndexError)"

text \<open>\<open>max(xs, default=d)\<close>.\<close>

definition py_max_default :: "int list \<Rightarrow> int \<Rightarrow> int" where
  "py_max_default xs d = (case xs of [] \<Rightarrow> d | x # rest \<Rightarrow> fold max rest x)"

subsection \<open>\<open>int(s)\<close> and \<open>float(s)\<close> on strings\<close>

definition py_isdigit :: "char \<Rightarrow> bool" where
  "py_isdigit c = (c \<in> set ''0123456789'')"

definition digit_val :: "char \<Rightarrow> nat" where
  "digit_val c = (case map_of (zip ''0123456789'' [0, 1, 2, 3, 4, 5, 6, 7, 8, 9]) c of
                    Some d \<Rightarrow> d | None \<Rightarrow> 0)"

text \<open>A digit group: digits, with single underscores allowed between two digits.\<close>

fun digit_group :: "string \<Rightarrow> bool" where
  "digit_group [] = False"
| "digit_group [c] = py_isdigit c"
| "digit_group (c # d # cs) =
     (py_isdigit c \<and> (if d = CHR ''_'' then digit_group cs else digit_group (d # cs)))"

definition digits_val :: "string \<Rightarrow> nat" where
  "digits_val s = foldl (\<lambda>a c. 10 * a + digit_val c) 0 (filter py_isdigit s)"

definition split_sign :: "string \<Rightarrow> bool \<times> string" where
  "split_sign s =
     (case s of [] \<Rightarrow> (False, [])
      | c # cs \<Rightarrow> if c = CHR ''-'' then (True, cs)
                  else if c = CHR ''+'' then (False, cs) else (False, s))"

text \<open>
  \<open>py_int s\<close> is \<open>int(s)\<close>: \<open>None\<close> stands for the ValueError. The bound that
  recent interpreters put on the number of digits is not part of the model.
\<close>

definition py_int :: "string \<Rightarrow> int option" where
  "py_int s =
     (let (neg, body) = split_sign (py_strip s)
      in if digit_group body
         then Some (if neg then - int (digits_val body) else int (digits_val body))
         else None)"

text \<open>Cut a string at the first character that satisfies \<open>P\<close>.\<close>

definition cut_at :: "(char \<Rightarrow> bool) \<Rightarrow> string \<Rightarrow> string \<times> string option" where
  "cut_at P s =
     (case dropWhile (\<lambda>c. \<not> P c) s of
        [] \<Rightarrow> (s, None)
      | _ # r \<Rightarrow> (takeWhile (\<lambda>c. \<not> P c) s, Some r))"

definition float_exponent :: "string option \<Rightarrow> int option" where
  "float_exponent ep =
     (case ep of None \<Rightarrow> Some 0
      | Some e \<Rightarrow>
          (let (neg, body) = split_sign e
           in if digit_group body
              then Some (if neg then - int (digits_val body) else int (digits_val body))
              else None))"

definition float_mantissa :: "string \<Rightarrow> (nat \<times> nat) option" where
  "float_mantissa m =
     (case cut_at (\<lambda>c. c = CHR ''.'') m of
        (ip, None) \<Rightarrow> if digit_group ip then Some (digits_val ip, 0) else None
      | (ip, Some fp) \<Rightarrow>
          if (digit_group ip \<and> (fp = [] \<or> digit_group fp)) \<or> (ip = [] \<and> digit_group fp)
          then Some (digits_val (ip @ fp), length (filter py_isdigit fp))
          else None)"

text \<open>\<open>py_float s\<close> is \<open>float(s)\<close>: \<open>None\<close> stands for the ValueError.\<close>

definition py_float :: "string \<Rightarrow> pyfloat option" where
  "py_float s =
     (let (neg, body) = split_sign (py_strip s)
      in if py_lower body \<in> set [''inf'', ''infinity''] then Some (FInf neg)
         else if py_lower body = ''nan'' then Some FNaN
         else (case cut_at (\<lambda>c. c \<in> set ''eE'') body of
                 (m, ep) \<Rightarrow>
                   (case (float_mantissa m, float_exponent ep) of
                      (Some (ds, frac), Some e) \<Rightarrow> Some (FDec neg ds (e - int frac))
                    | _ \<Rightarrow> None)))"

section \<open>\<open>LargeCSVProcessor\<close> (process\_large\_csv)\<close>

record processor =
  csv_path :: string
  headers :: "string list"
  row_count :: int
  chunk_size :: nat

definition init_processor :: "string \<Rightarrow> processor" where
  "init_processor path =
     \<lparr>csv_path = path, headers = [], row_count = 0, chunk_size = 10000\<rparr>"

text \<open>
  What \<open>csv.reader\<close> yields when it is advanced: a row of fields, or an exception (an
  I/O error of the file, or \<open>csv.Error\<close>). The list ends where the reader is exhausted.
\<close>

datatype csv_item = Row "string list" | ReadFail

type_synonym player_stats = "(string \<times> pyval) list"
type_synonym players_data = "(string \<times> player_stats) list"

subsection \<open>\<open>extract_player_data\<close>\<close>

text \<open>The \<open>try\<close> block of lines 122 to 128, applied to the stripped cell.\<close>

definition try_convert_number :: "string \<Rightarrow> pyval" where
  "try_convert_number stat_value =
     (if CHR ''.'' \<in> set stat_value
      then (case py_float stat_value of Some f \<Rightarrow> VFloat f | None \<Rightarrow> VStr stat_value)
      else (case py_int stat_value of Some i \<Rightarrow> VInt i | None \<Rightarrow> VStr stat_value))"

text \<open>The inner loop over \<open>stat_col_indices\<close> (lines 116 to 128).\<close>

fun collect_stats ::
  "string list \<Rightarrow> string list \<Rightarrow> int list \<Rightarrow> player_stats \<Rightarrow> py_exception + player_stats"
where
  "collect_stats hdrs row [] ps = Inr ps"
| "collect_stats hdrs row (stat_idx # rest) ps =
     (if stat_idx < int (length row)
      then (case py_getitem hdrs stat_idx of
              Inl e \<Rightarrow> Inl e
            | Inr stat_name \<Rightarrow>
                (case py_getitem row stat_idx of
                   Inl e \<Rightarrow> Inl e
                 | Inr cell \<Rightarrow>
                     collect_stats hdrs row rest
                       (AList.update stat_name (try_convert_number (py_strip cell)) ps)))
      else collect_stats hdrs row rest ps)"

record extract_state =
  players :: players_data
  processed_rows :: nat

text \<open>
  The first part of the loop body (lines 107 to 128): the key and the record a row
  gives, \<open>None\<close> where the body leaves through \<open>continue\<close>.
\<close>

definition row_record ::
  "string list \<Rightarrow> int \<Rightarrow> int list \<Rightarrow> string list
     \<Rightarrow> py_exception + (string \<times> player_stats) option"
where
  "row_record hdrs player_col_idx stat_col_indices row =
     (if int (length row) \<le> max player_col_idx (py_max_default stat_col_indices 0)
      then Inr None
      else (case py_getitem row player_col_idx of
              Inl e \<Rightarrow> Inl e
            | Inr cell \<Rightarrow>
                (let player_name = py_strip cell
                 in if player_name = [] then Inr None
                    else (case collect_stats hdrs row stat_col_indices
                                 [(''name'', VStr player_name)] of
                            Inl e \<Rightarrow> Inl e
                          | Inr stats \<Rightarrow> Inr (Some (player_name, stats))))))"

text \<open>The whole loop body: lines 130 and 131 store the record and count the row.\<close>

definition row_step ::
  "string list \<Rightarrow> int \<Rightarrow> int list \<Rightarrow> extract_state \<Rightarrow> string list
     \<Rightarrow> py_exception + extract_state"
where
  "row_step hdrs player_col_idx stat_col_indices st row =
     (case row_record hdrs player_col_idx stat_col_indices row of
        Inl e \<Rightarrow> Inl e
      | Inr None \<Rightarrow> Inr st
      | Inr (Some (player_name, stats)) \<Rightarrow>
          Inr \<lparr>players = AList.update player_name stats (players st),
               processed_rows = processed_rows st + 1\<rparr>)"

fun extract_loop ::
  "string list \<Rightarrow> int \<Rightarrow> int list \<Rightarrow> extract_state \<Rightarrow> csv_item list
     \<Rightarrow> py_exception + extract_state"
where
  "extract_loop hdrs pc sc st [] = Inr st"
| "extract_loop hdrs pc sc st (ReadFail # rest) = Inl ReadError"
| "extract_loop hdrs pc sc st (Row row # rest) =
     (case row_step hdrs pc sc st row of
        Inl e \<Rightarrow> Inl e
      | Inr st' \<Rightarrow> extract_loop hdrs pc sc st' rest)"

text \<open>
  The function reads \<open>self.headers[player_col_idx]\<close> for its first message, opens the
  file, skips the header with \<open>next(reader)\<close> and runs the loop. An exception leaves the
  function (there is no handler): the result is then \<open>Inl\<close> of the exception, and the
  local \<open>players_data\<close> is gone. The parameter \<open>position_filter\<close> and the field
  \<open>chunk_size\<close> are never read. The function returns the table alone;
  \<open>processed_rows\<close> is only printed.
\<close>

definition extract_player_data ::
  "processor \<Rightarrow> int \<Rightarrow> int list \<Rightarrow> csv_item list \<Rightarrow> py_exception + players_data"
where
  "extract_player_data self player_col_idx stat_col_indices file =
     (case py_getitem (headers self) player_col_idx of
        Inl e \<Rightarrow> Inl e
      | Inr _ \<Rightarrow>
          (case file of
             [] \<Rightarrow> Inl StopIteration
           | ReadFail # _ \<Rightarrow> Inl ReadError
           | Row _ # rest \<Rightarrow>
               (case extract_loop (headers self) player_col_idx stat_col_indices
                       \<lparr>players = [], processed_rows = 0\<rparr> rest of
                  Inl e \<Rightarrow> Inl e
                | Inr st \<Rightarrow> Inr (players st))))"

subsection \<open>\<open>analyze_file\<close> and \<open>main\<close>\<close>

text \<open>
  The sampling loop of \<open>analyze_file\<close>: \<open>for i, row in enumerate(reader): if i >= 3:
  break\<close>. The reader is advanced before the test, so up to four data rows are read.
  The result is \<open>False\<close> when the reader raises.
\<close>

fun sample_rows :: "nat \<Rightarrow> csv_item list \<Rightarrow> bool" where
  "sample_rows i [] = True"
| "sample_rows i (ReadFail # rest) = False"
| "sample_rows i (Row row # rest) = (if i \<ge> 3 then True else sample_rows (i + 1) rest)"

text \<open>
  \<open>analyze_file\<close> returns a flag and leaves the header in \<open>self.headers\<close>. One
  \<open>try\<close> block holds \<open>next(reader)\<close> and the sampling loop; any exception there (the
  StopIteration of an empty file too) gives \<open>False\<close>. The second pass counts the lines
  of the file; \<open>line_total\<close> is that count, \<open>None\<close> when the pass fails, which is
  only reported.
\<close>

definition analyze_file :: "processor \<Rightarrow> csv_item list \<Rightarrow> nat option \<Rightarrow> bool \<times> processor" where
  "analyze_file self file line_total =
     (case file of
        [] \<Rightarrow> (False, self)
      | ReadFail # _ \<Rightarrow> (False, self)
      | Row header # rest \<Rightarrow>
          (let self1 = self\<lparr>headers := header\<rparr>
           in if \<not> sample_rows 0 rest then (False, self1)
              else (True, (case line_total of
                             None \<Rightarrow> self1
                           | Some n \<Rightarrow> self1\<lparr>row_count := int n - 1\<rparr>))))"

text \<open>
  \<open>main\<close>, with the operator's selection (\<open>interactive_column_selection\<close>) given as
  the two arguments it returns. \<open>file\<close> is \<open>None\<close> when the path does not exist. The
  result \<open>Inr None\<close> is a return before any extraction, \<open>Inr (Some data)\<close> the
  extracted table that is saved. The file is opened again for the extraction and is
  taken to yield the same items as during the analysis.
\<close>

definition main ::
  "string \<Rightarrow> csv_item list option \<Rightarrow> nat option \<Rightarrow> int \<Rightarrow> int list
     \<Rightarrow> py_exception + players_data option"
where
  "main path file line_total player_col_idx stat_col_indices =
     (case file of
        None \<Rightarrow> Inr None
      | Some items \<Rightarrow>
          (let (ok, processor) = analyze_file (init_processor path) items line_total
           in if \<not> ok then Inr None
              else (case extract_player_data processor player_col_idx stat_col_indices items of
                      Inl e \<Rightarrow> Inl e
                    | Inr extracted_data \<Rightarrow> Inr (Some extracted_data))))"

section \<open>\<open>PandasCSVProcessor\<close> (process\_large\_csv\_pandas)\<close>

text \<open>
  A cell of a data frame is missing (NaN, which is also how the reader delivers an empty
  field), a text, or a number; \<open>'n\<close> is the type of the numbers and \<open>str\<close>, an
  argument of the functions below, prints one. A row is the dict
  \<open>to_dict('records')\<close> gives for it, from column name to cell. The typing of the cells
  is the reader's work; \<open>extract_fantasy_data\<close> starts from the frames the reader
  delivers, each typed on its own.
\<close>

datatype 'n cell = NaN | Txt string | Num 'n

type_synonym 'n row = "(string \<times> 'n cell) list"

datatype dtype = DObject | DInt | DFloat | DBool

record 'n series =
  series_dtype :: dtype
  series_values :: "'n cell list"

definition py_str :: "('n \<Rightarrow> string) \<Rightarrow> 'n cell \<Rightarrow> string" where
  "py_str str v = (case v of NaN \<Rightarrow> ''nan'' | Txt s \<Rightarrow> s | Num n \<Rightarrow> str n)"

definition is_numeric_dtype :: "dtype \<Rightarrow> bool" where
  "is_numeric_dtype d = (d \<in> set [DInt, DFloat, DBool])"

subsection \<open>\<open>detect_player_columns\<close>\<close>

definition any_keyword :: "string list \<Rightarrow> string \<Rightarrow> bool" where
  "any_keyword keywords s = list_ex (\<lambda>keyword. py_in keyword s) keywords"

definition name_keywords :: "string list" where
  "name_keywords = [''name'', ''player'', ''full_name'', ''player_name'']"

definition position_keywords :: "string list" where
  "position_keywords = [''position'', ''pos'', ''eligible'']"

definition team_keywords :: "string list" where
  "team_keywords = [''team'', ''tm'', ''club'']"

definition stat_keywords :: "string list" where
  "stat_keywords =
     [''fantasy'', ''points'', ''pts'', ''yards'', ''yd'', ''yds'',
      ''touchdown'', ''td'', ''reception'', ''rec'', ''target'', ''tgt'',
      ''rush'', ''pass'', ''adp'', ''rank'', ''projection'', ''proj'',
      ''actual'', ''season'', ''week'', ''game'', ''snap'', ''share'',
      ''ppr'', ''half'', ''standard'', ''score'']"

record detected =
  player_columns :: "string list"
  stat_columns :: "string list"
  position_columns :: "string list"
  team_columns :: "string list"

text \<open>Lines 91 and 92: the test on the first five values that are not NaN.\<close>

definition looks_like_names :: "('n \<Rightarrow> string) \<Rightarrow> 'n series \<Rightarrow> bool" where
  "looks_like_names str col_data =
     (let sample_values = take 5 (filter (\<lambda>v. v \<noteq> NaN) (series_values col_data))
      in list_ex (\<lambda>val. CHR '' '' \<in> set (py_str str val)) sample_values)"

text \<open>The body of the loop over the headers (lines 82 to 117).\<close>

definition classify_column ::
  "('n \<Rightarrow> string) \<Rightarrow> string \<Rightarrow> 'n series \<Rightarrow> detected \<Rightarrow> detected"
where
  "classify_column str col col_data d =
     (let col_lower = py_lower col
      in if any_keyword name_keywords col_lower
         then (if series_dtype col_data = DObject
               then (if looks_like_names str col_data
                     then d\<lparr>player_columns := player_columns d @ [col]\<rparr> else d)
               else d)
         else if any_keyword position_keywords col_lower
         then d\<lparr>position_columns := position_columns d @ [col]\<rparr>
         else if any_keyword team_keywords col_lower
         then d\<lparr>team_columns := team_columns d @ [col]\<rparr>
         else if any_keyword stat_keywords col_lower
         then (if is_numeric_dtype (series_dtype col_data) \<or> series_dtype col_data = DObject
               then d\<lparr>stat_columns := stat_columns d @ [col]\<rparr> else d)
         else d)"

fun detect_loop ::
  "('n \<Rightarrow> string) \<Rightarrow> (string \<times> 'n series) list \<Rightarrow> string list \<Rightarrow> detected
     \<Rightarrow> py_exception + detected"
where
  "detect_loop str sample_data [] d = Inr d"
| "detect_loop str sample_data (col # cols) d =
     (case map_of sample_data col of
        None \<Rightarrow> Inl KeyError
      | Some col_data \<Rightarrow> detect_loop str sample_data cols (classify_column str col col_data d))"

text \<open>
  \<open>detect_player_columns\<close> reads \<open>self.headers\<close> and \<open>self.sample_data\<close>, the frame
  of the first rows (\<open>None\<close> before the file is analysed), here as the list of its
  columns.
\<close>

definition detect_player_columns ::
  "('n \<Rightarrow> string) \<Rightarrow> string list \<Rightarrow> (string \<times> 'n series) list option
     \<Rightarrow> py_exception + detected"
where
  "detect_player_columns str hdrs sample_data =
     (let none = \<lparr>player_columns = [], stat_columns = [], position_columns = [],
                  team_columns = []\<rparr>
      in case sample_data of
           None \<Rightarrow> Inr none
         | Some df \<Rightarrow> detect_loop str df hdrs none)"

subsection \<open>\<open>extract_fantasy_data\<close>\<close>

text \<open>
  What the iterator of \<open>pd.read_csv(..., chunksize=...)\<close> yields when it is advanced: the
  next frame, as the list of its rows, or an exception. \<open>read_csv\<close> is called with
  \<open>usecols=columns_to_read\<close>, so a frame it delivers has every column the function
  touches; a row without such a column makes the access raise KeyError, which the
  handler of the function turns into \<open>None\<close> like any other exception.
\<close>

datatype 'n chunk_item = Chunk "'n row list" | ChunkFail

record 'n filters =
  positions :: "string list option"
  year :: "'n cell option"

definition columns_to_read ::
  "string \<Rightarrow> string list \<Rightarrow> string option \<Rightarrow> string option \<Rightarrow> string option \<Rightarrow> string list"
where
  "columns_to_read player_col stat_cols position_col team_col year_col =
     (let add = (\<lambda>col cols. case col of
                                None \<Rightarrow> cols
                              | Some c \<Rightarrow> if c \<noteq> [] \<and> c \<notin> set cols then cols @ [c] else cols)
      in add year_col (add team_col (add position_col (player_col # stat_cols))))"

definition has_column :: "string \<Rightarrow> 'n row \<Rightarrow> bool" where
  "has_column col r = (map_of r col \<noteq> None)"

definition notna :: "string \<Rightarrow> 'n row \<Rightarrow> bool" where
  "notna col r = (map_of r col \<noteq> Some NaN)"

definition strip_column :: "('n \<Rightarrow> string) \<Rightarrow> string \<Rightarrow> 'n row \<Rightarrow> 'n row" where
  "strip_column str col r =
     (case map_of r col of
        None \<Rightarrow> r
      | Some v \<Rightarrow> AList.update col (Txt (py_strip (py_str str v))) r)"

definition not_empty :: "string \<Rightarrow> 'n row \<Rightarrow> bool" where
  "not_empty col r = (map_of r col \<noteq> Some (Txt []))"

text \<open>Lines 159 to 161: \<open>dropna\<close>, \<open>astype(str).str.strip()\<close>, and the test \<open>!= ''\<close>.\<close>

definition clean_chunk :: "('n \<Rightarrow> string) \<Rightarrow> string \<Rightarrow> 'n row list \<Rightarrow> 'n row list option" where
  "clean_chunk str player_col chunk =
     (if list_all (has_column player_col) chunk
      then Some (filter (not_empty player_col)
                   (map (strip_column str player_col) (filter (notna player_col) chunk)))
      else None)"

text \<open>\<open>Series.isin\<close> of a list of texts, and \<open>==\<close> against one value (NaN equals nothing).\<close>

definition cell_isin :: "'n cell \<Rightarrow> string list \<Rightarrow> bool" where
  "cell_isin v accepted = (case v of Txt s \<Rightarrow> s \<in> set accepted | _ \<Rightarrow> False)"

definition cell_eq :: "'n cell \<Rightarrow> 'n cell \<Rightarrow> bool" where
  "cell_eq v w = (v \<noteq> NaN \<and> w \<noteq> NaN \<and> v = w)"

definition position_ok :: "string \<Rightarrow> string list \<Rightarrow> 'n row \<Rightarrow> bool" where
  "position_ok col accepted r =
     (case map_of r col of None \<Rightarrow> False | Some v \<Rightarrow> cell_isin v accepted)"

definition year_ok :: "string \<Rightarrow> 'n cell \<Rightarrow> 'n row \<Rightarrow> bool" where
  "year_ok col y r = (case map_of r col of None \<Rightarrow> False | Some v \<Rightarrow> cell_eq v y)"

text \<open>
  Lines 165 and 166. The test \<open>position_col and 'positions' in filters\<close> holds when
  the column name is given and not the empty string and the filter has the key.
\<close>

definition filter_positions ::
  "string option \<Rightarrow> 'n filters \<Rightarrow> 'n row list \<Rightarrow> 'n row list option"
where
  "filter_positions position_col flt chunk =
     (case (position_col, positions flt) of
        (Some col, Some accepted) \<Rightarrow>
          if col = [] then Some chunk
          else if list_all (has_column col) chunk
          then Some (filter (position_ok col accepted) chunk) else None
      | _ \<Rightarrow> Some chunk)"

text \<open>Lines 167 and 168, in the same way.\<close>

definition filter_year ::
  "string option \<Rightarrow> 'n filters \<Rightarrow> 'n row list \<Rightarrow> 'n row list option"
where
  "filter_year year_col flt chunk =
     (case (year_col, year flt) of
        (Some col, Some y) \<Rightarrow>
          if col = [] then Some chunk
          else if list_all (has_column col) chunk
          then Some (filter (year_ok col y) chunk) else None
      | _ \<Rightarrow> Some chunk)"

text \<open>The body of the loop up to \<open>to_dict('records')\<close> (lines 159 to 171).\<close>

definition process_chunk ::
  "('n \<Rightarrow> string) \<Rightarrow> string \<Rightarrow> string option \<Rightarrow> 'n filters \<Rightarrow> string option
     \<Rightarrow> 'n row list \<Rightarrow> 'n row list option"
where
  "process_chunk str player_col position_col flt year_col chunk =
     (case clean_chunk str player_col chunk of
        None \<Rightarrow> None
      | Some c1 \<Rightarrow>
          (case filter_positions position_col flt c1 of
             None \<Rightarrow> None
           | Some c2 \<Rightarrow> filter_year year_col flt c2))"

record 'n fantasy_state =
  all_data :: "'n row list"
  chunk_num :: nat
  fantasy_rows :: nat

fun chunk_loop ::
  "('n \<Rightarrow> string) \<Rightarrow> string \<Rightarrow> string option \<Rightarrow> 'n filters \<Rightarrow> string option
     \<Rightarrow> 'n fantasy_state \<Rightarrow> 'n chunk_item list \<Rightarrow> 'n fantasy_state option"
where
  "chunk_loop str pc posc flt yc st [] = Some st"
| "chunk_loop str pc posc flt yc st (ChunkFail # rest) = None"
| "chunk_loop str pc posc flt yc st (Chunk chunk # rest) =
     (case process_chunk str pc posc flt yc chunk of
        None \<Rightarrow> None
      | Some chunk_records \<Rightarrow>
          chunk_loop str pc posc flt yc
            \<lparr>all_data = all_data st @ chunk_records,
             chunk_num = chunk_num st + 1,
             fantasy_rows = fantasy_rows st + length chunk_records\<rparr> rest)"

text \<open>
  The function returns the list \<open>all_data\<close>, or \<open>None\<close> from its \<open>except Exception\<close>
  handler. \<open>stat_cols\<close> and \<open>team_col\<close> only choose the columns that are read.
\<close>

definition extract_fantasy_data ::
  "('n \<Rightarrow> string) \<Rightarrow> string \<Rightarrow> string list \<Rightarrow> string option \<Rightarrow> string option
     \<Rightarrow> 'n filters \<Rightarrow> string option \<Rightarrow> 'n chunk_item list \<Rightarrow> 'n row list option"
where
  "extract_fantasy_data str player_col stat_cols position_col team_col flt year_col chunks =
     (case chunk_loop str player_col position_col flt year_col
             \<lparr>all_data = [], chunk_num = 0, fantasy_rows = 0\<rparr> chunks of
        None \<Rightarrow> None
      | Some st \<Rightarrow> Some (all_data st))"





text \<open>Decimal printing of an integer, for frames whose numbers are integers.\<close>

function str_nat :: "nat \<Rightarrow> string" where
  "str_nat n = (if n < 10 then [''0123456789'' ! n]
                else str_nat (n div 10) @ [''0123456789'' ! (n mod 10)])"
  by pat_completeness auto
termination
  by (relation "measure id") auto

declare str_nat.simps [simp del]

definition str_int :: "int \<Rightarrow> string" where
  "str_int i = (if i < 0 then CHR ''-'' # str_nat (nat (- i)) else str_nat (nat i))"

section \<open>The specification's wording, for comparison\<close>


text \<open>
  The majority test as the specification words it: more than half of the non-empty
  sample values contain an internal space.
\<close>

definition internal_space :: "string \<Rightarrow> bool" where
  "internal_space s = (CHR '' '' \<in> set (py_strip s))"

definition spec_majority :: "string list \<Rightarrow> bool" where
  "spec_majority samples =
     (let non_empty = filter (\<lambda>s. s \<noteq> []) samples
      in length non_empty < 2 * length (filter internal_space non_empty))"

section \<open>Predicates of the statements and invariants\<close>

text \<open>A record with the key \<open>name\<close> and an entry for the header of every selected index.\<close>

definition complete_record :: "string list \<Rightarrow> int list \<Rightarrow> player_stats \<Rightarrow> bool" where
  "complete_record hdrs sc stats =
     (''name'' \<in> fst ` set stats \<and>
      (\<forall>i\<in>set sc. \<exists>h. py_getitem hdrs i = Inr h \<and> h \<in> fst ` set stats))"

text \<open>The keys that come from the rows of a file: stripped, not empty.\<close>

definition key_of_rows :: "int \<Rightarrow> csv_item list \<Rightarrow> string \<Rightarrow> bool" where
  "key_of_rows pc items k =
     (k \<noteq> [] \<and>
      (\<exists>row cell. Row row \<in> set items \<and> py_getitem row pc = Inr cell \<and> k = py_strip cell))"

text \<open>Two results of frames put together: an exception in either is an exception.\<close>

definition opt_append :: "'a list option \<Rightarrow> 'a list option \<Rightarrow> 'a list option" where
  "opt_append a b = (case (a, b) of (Some x, Some y) \<Rightarrow> Some (x @ y) | _ \<Rightarrow> None)"

text \<open>
  The rows the two filters of \<open>extract_fantasy_data\<close> keep, in one predicate: the
  position cell, as it was read, is a text of the accepted list, and the year cell equals
  the wanted year; a filter that is not given keeps every row.
\<close>

definition row_kept :: "string option \<Rightarrow> string option \<Rightarrow> 'n filters \<Rightarrow> 'n row \<Rightarrow> bool" where
  "row_kept position_col year_col flt r =
     ((case (position_col, positions flt) of
         (Some col, Some accepted) \<Rightarrow>
            col = [] \<or> (\<exists>s. map_of r col = Some (Txt s) \<and> s \<in> set accepted)
       | _ \<Rightarrow> True) \<and>
      (case (year_col, year flt) of
         (Some col, Some y) \<Rightarrow>
            col = [] \<or> (\<exists>v. map_of r col = Some v \<and> v \<noteq> NaN \<and> y \<noteq> NaN \<and> v = y)
       | _ \<Rightarrow> True))"

text \<open>The state of the lists of \<open>detect_player_columns\<close> for the columns with a name keyword.\<close>

definition name_rule ::
  "('n \<Rightarrow> string) \<Rightarrow> (string \<times> 'n series) list \<Rightarrow> string set \<Rightarrow> detected \<Rightarrow> bool"
where
  "name_rule str df seen d =
     (\<forall>col. any_keyword name_keywords (py_lower col) \<longrightarrow>
        (col \<in> set (player_columns d)) =
          (col \<in> seen \<and>
           (\<exists>cd. map_of df col = Some cd \<and> series_dtype cd = DObject \<and>
                 looks_like_names str cd)) \<and>
        col \<notin> set (stat_columns d) \<and> col \<notin> set (position_columns d) \<and>
        col \<notin> set (team_columns d))"

section \<open>Coercion of a cell\<close>












section \<open>Records stored by \<open>extract_player_data\<close>\<close>

lemma max_default_ge: "i \<in> set sc \<Longrightarrow> i \<le> py_max_default sc d"
proof -
  have f: "a \<le> fold max xs a \<and> (\<forall>i\<in>set xs. i \<le> fold max xs a)" for xs :: "int list" and a
  proof (induction xs arbitrary: a)
    case Nil
    show ?case by simp
  next
    case (Cons x xs)
    have "max x a \<le> fold max xs (max x a)" using Cons by blast
    moreover have "\<forall>i\<in>set xs. i \<le> fold max xs (max x a)" using Cons by blast
    ultimately show ?case by auto
  qed
  assume "i \<in> set sc"
  then show ?thesis using f by (cases sc) (auto simp: py_max_default_def)
qed

text \<open>Once a row has passed the length test, the test of line 117 holds for every index.\<close>

lemma row_record_bounds:
  "row_record hdrs pc sc row = Inr (Some (k, stats)) \<Longrightarrow> \<forall>i\<in>set sc. i < int (length row)"
  using max_default_ge [of _ sc 0]
  by (fastforce simp: row_record_def split: if_splits)

lemma collect_stats_keys:
  "collect_stats hdrs row sc ps = Inr ps' \<Longrightarrow> \<forall>i\<in>set sc. i < int (length row) \<Longrightarrow>
     fst ` set ps \<subseteq> fst ` set ps' \<and>
     (\<forall>i\<in>set sc. \<exists>h. py_getitem hdrs i = Inr h \<and> h \<in> fst ` set ps')"
proof (induction sc arbitrary: ps)
  case Nil
  then show ?case by simp
next
  case (Cons i sc)
  from Cons.prems obtain h cell where h: "py_getitem hdrs i = Inr h"
    and r: "collect_stats hdrs row sc
              (AList.update h (try_convert_number (py_strip cell)) ps) = Inr ps'"
    by (auto split: sum.splits)
  from Cons.IH [OF r] Cons.prems(2)
  have ih: "fst ` set (AList.update h (try_convert_number (py_strip cell)) ps) \<subseteq> fst ` set ps'"
    "\<forall>i\<in>set sc. \<exists>h. py_getitem hdrs i = Inr h \<and> h \<in> fst ` set ps'" by auto
  from ih(1) have "h \<in> fst ` set ps'" "fst ` set ps \<subseteq> fst ` set ps'"
    by (auto simp: dom_update)
  with ih(2) h show ?case by auto
qed

lemma row_record_complete:
  assumes "row_record hdrs pc sc row = Inr (Some (k, stats))"
  shows "complete_record hdrs sc stats"
proof -
  from assms obtain cell where
    cs: "collect_stats hdrs row sc [(''name'', VStr (py_strip cell))] = Inr stats"
    by (auto simp: row_record_def Let_def split: if_splits sum.splits)
  from collect_stats_keys [OF cs row_record_bounds [OF assms]]
  show ?thesis by (auto simp: complete_record_def)
qed

lemma set_update_subset: "set (AList.update k v al) \<subseteq> insert (k, v) (set al)"
  by (induction al) auto

lemma row_step_cases:
  assumes "row_step hdrs pc sc st row = Inr st'"
  obtains "row_record hdrs pc sc row = Inr None" and "st' = st"
  | k stats where "row_record hdrs pc sc row = Inr (Some (k, stats))"
      and "st' = \<lparr>players = AList.update k stats (players st),
                  processed_rows = processed_rows st + 1\<rparr>"
  using assms by (auto simp: row_step_def split: sum.splits option.splits)

lemma row_step_complete:
  assumes "row_step hdrs pc sc st row = Inr st'"
    and "\<forall>e\<in>set (players st). complete_record hdrs sc (snd e)"
  shows "\<forall>e\<in>set (players st'). complete_record hdrs sc (snd e)"
  using assms(1)
proof (cases rule: row_step_cases)
  case 1
  with assms(2) show ?thesis by simp
next
  case (2 k stats)
  have "complete_record hdrs sc stats"
    using row_record_complete [OF 2(1)] .
  with assms(2) 2(2) set_update_subset [of k stats "players st"] show ?thesis by auto
qed

lemma extract_loop_Row:
  assumes "extract_loop hdrs pc sc st (Row row # items) = Inr st'"
  obtains st1 where "row_step hdrs pc sc st row = Inr st1"
    and "extract_loop hdrs pc sc st1 items = Inr st'"
  using assms by (auto split: sum.splits)

lemma extract_loop_complete:
  "extract_loop hdrs pc sc st items = Inr st' \<Longrightarrow>
   \<forall>e\<in>set (players st). complete_record hdrs sc (snd e) \<Longrightarrow>
   \<forall>e\<in>set (players st'). complete_record hdrs sc (snd e)"
proof (induction items arbitrary: st)
  case Nil
  then show ?case by simp
next
  case (Cons it items)
  show ?case
  proof (cases it)
    case ReadFail
    with Cons.prems show ?thesis by simp
  next
    case (Row row)
    with Cons.prems(1) have "extract_loop hdrs pc sc st (Row row # items) = Inr st'"
      by simp
    then obtain st1 where s1: "row_step hdrs pc sc st row = Inr st1"
      and l: "extract_loop hdrs pc sc st1 items = Inr st'"
      by (rule extract_loop_Row)
    from Cons.IH [OF l row_step_complete [OF s1 Cons.prems(2)]] show ?thesis .
  qed
qed

lemma extract_player_data_Inr:
  assumes "extract_player_data self pc sc file = Inr tbl"
  obtains header rest st where "file = Row header # rest"
    and "extract_loop (headers self) pc sc \<lparr>players = [], processed_rows = 0\<rparr> rest = Inr st"
    and "tbl = players st"
  using assms
  by (auto simp: extract_player_data_def split: sum.splits list.splits csv_item.splits)

text \<open>
  C10. Every record of the table \<open>extract_player_data\<close> returns has the key \<open>name\<close> and,
  for every selected index, an entry under the header that index names. A row can only
  be stored after the length test of line 107, and then the test of line 117 holds for
  each index (\<open>row_record_bounds\<close>), so no record is stored with a part of its columns.
\<close>

theorem stored_records_complete:
  assumes "extract_player_data self pc sc file = Inr tbl" and "(k, stats) \<in> set tbl"
  shows "''name'' \<in> fst ` set stats \<and>
         (\<forall>i\<in>set sc. \<exists>h. py_getitem (headers self) i = Inr h \<and> h \<in> fst ` set stats)"
proof -
  from assms(1) obtain rest st where
    l: "extract_loop (headers self) pc sc \<lparr>players = [], processed_rows = 0\<rparr> rest = Inr st"
    and t: "tbl = players st"
    by (rule extract_player_data_Inr)
  have "\<forall>e\<in>set (players st). complete_record (headers self) sc (snd e)"
    by (rule extract_loop_complete [OF l]) simp
  with assms(2) t have "complete_record (headers self) sc (snd (k, stats))" by blast
  then show ?thesis by (simp add: complete_record_def)
qed

theorem stored_records_complete_witness:
  "extract_player_data
     \<lparr>csv_path = ''f'', headers = [''name'', ''team'', ''points''], row_count = 2,
      chunk_size = 10000\<rparr>
     0 [1, 2]
     [Row [''name'', ''team'', ''points''], Row [''Alice'', ''NYG'', ''10.5''], Row [''Bob'']]
   = Inr [(''Alice'', [(''name'', VStr ''Alice''), (''team'', VStr ''NYG''),
                       (''points'', VFloat (FDec False 105 (- 1)))])] \<and>
   ''name'' \<in> fst ` set [(''name'', VStr ''Alice''), (''team'', VStr ''NYG''),
                           (''points'', VFloat (FDec False 105 (- 1)))] \<and>
   (\<exists>h. py_getitem [''name'', ''team'', ''points''] 1 = Inr h \<and>
       h \<in> fst ` set [(''name'', VStr ''Alice''), (''team'', VStr ''NYG''),
                       (''points'', VFloat (FDec False 105 (- 1)))]) \<and>
   (\<exists>h. py_getitem [''name'', ''team'', ''points''] 2 = Inr h \<and>
       h \<in> fst ` set [(''name'', VStr ''Alice''), (''team'', VStr ''NYG''),
                       (''points'', VFloat (FDec False 105 (- 1)))])"
proof -
  let ?self = "\<lparr>csv_path = ''f'', headers = [''name'', ''team'', ''points''], row_count = 2,
                chunk_size = 10000\<rparr>"
  let ?stats = "[(''name'', VStr ''Alice''), (''team'', VStr ''NYG''),
                 (''points'', VFloat (FDec False 105 (- 1)))]"
  have h1: "extract_player_data ?self 0 [1, 2]
              [Row [''name'', ''team'', ''points''], Row [''Alice'', ''NYG'', ''10.5''],
               Row [''Bob'']]
            = Inr [(''Alice'', ?stats)]"
    by code_simp
  have h2: "(''Alice'', ?stats) \<in> set [(''Alice'', ?stats)]" by simp
  from stored_records_complete [OF h1 h2] h1 show ?thesis by simp
qed

section \<open>The row loop of \<open>extract_player_data\<close>\<close>

lemma extract_loop_append:
  "extract_loop hdrs pc sc st (xs @ ys) =
     (case extract_loop hdrs pc sc st xs of
        Inl e \<Rightarrow> Inl e
      | Inr st' \<Rightarrow> extract_loop hdrs pc sc st' ys)"
proof (induction xs arbitrary: st)
  case Nil
  show ?case by simp
next
  case (Cons it xs)
  show ?case
  proof (cases it)
    case ReadFail
    then show ?thesis by simp
  next
    case (Row row)
    then show ?thesis using Cons.IH by (simp split: sum.splits)
  qed
qed

lemma row_step_skip: "row_record hdrs pc sc row = Inr None \<Longrightarrow> row_step hdrs pc sc st row = Inr st"
  by (simp add: row_step_def)

lemma extract_loop_skip:
  assumes "row_record hdrs pc sc row = Inr None"
  shows "extract_loop hdrs pc sc st (pre @ Row row # post) = extract_loop hdrs pc sc st (pre @ post)"
  using assms by (simp add: extract_loop_append row_step_skip split: sum.splits)

lemma extract_player_data_skip:
  assumes "row_record (headers self) pc sc row = Inr None"
  shows "extract_player_data self pc sc (Row h # pre @ Row row # post) =
         extract_player_data self pc sc (Row h # pre @ post)"
  using extract_loop_skip [OF assms, of _ pre post]
  by (simp add: extract_player_data_def split: sum.splits)

lemma short_row_record:
  "int (length row) \<le> max pc (py_max_default sc 0) \<Longrightarrow> row_record hdrs pc sc row = Inr None"
  by (simp add: row_record_def)

lemma blank_key_row_record:
  "py_getitem row pc = Inr cell \<Longrightarrow> py_strip cell = [] \<Longrightarrow> row_record hdrs pc sc row = Inr None"
  by (simp add: row_record_def)

lemma row_record_key:
  assumes "row_record hdrs pc sc row = Inr (Some (k, stats))"
  shows "k \<noteq> [] \<and> (\<exists>cell. py_getitem row pc = Inr cell \<and> k = py_strip cell)"
  using assms by (auto simp: row_record_def Let_def split: if_splits sum.splits)

lemma extract_loop_keys:
  "extract_loop hdrs pc sc st items = Inr st' \<Longrightarrow> k \<in> fst ` set (players st') \<Longrightarrow>
   k \<in> fst ` set (players st) \<or> key_of_rows pc items k"
proof (induction items arbitrary: st)
  case Nil
  then show ?case by simp
next
  case (Cons it items)
  show ?case
  proof (cases it)
    case ReadFail
    with Cons.prems show ?thesis by simp
  next
    case (Row row)
    with Cons.prems(1) have "extract_loop hdrs pc sc st (Row row # items) = Inr st'" by simp
    then obtain st1 where s1: "row_step hdrs pc sc st row = Inr st1"
      and l: "extract_loop hdrs pc sc st1 items = Inr st'"
      by (rule extract_loop_Row)
    from Cons.IH [OF l Cons.prems(2)]
    consider "k \<in> fst ` set (players st1)" | "key_of_rows pc items k" by blast
    then show ?thesis
    proof cases
      case 1
      from s1 show ?thesis
      proof (cases rule: row_step_cases)
        case 1
        with \<open>k \<in> fst ` set (players st1)\<close> show ?thesis by simp
      next
        case (2 k' stats)
        with \<open>k \<in> fst ` set (players st1)\<close> have "k = k' \<or> k \<in> fst ` set (players st)"
          by (auto simp: dom_update)
        with row_record_key [OF 2(1)] Row show ?thesis
          by (auto simp: key_of_rows_def)
      qed
    next
      case 2
      then show ?thesis by (auto simp: key_of_rows_def)
    qed
  qed
qed

lemma extract_player_data_keys:
  assumes "extract_player_data self pc sc file = Inr tbl" and "k \<in> fst ` set tbl"
  shows "k \<noteq> [] \<and> (\<exists>row cell. Row row \<in> set file \<and> py_getitem row pc = Inr cell \<and> k = py_strip cell)"
proof -
  from assms(1) obtain header rest st where f: "file = Row header # rest" and
    l: "extract_loop (headers self) pc sc \<lparr>players = [], processed_rows = 0\<rparr> rest = Inr st"
    and t: "tbl = players st"
    by (rule extract_player_data_Inr)
  from extract_loop_keys [OF l] assms(2) t have "key_of_rows pc rest k" by auto
  with f show ?thesis by (auto simp: key_of_rows_def)
qed

lemma extract_loop_distinct:
  "extract_loop hdrs pc sc st items = Inr st' \<Longrightarrow> distinct (map fst (players st)) \<Longrightarrow>
   distinct (map fst (players st'))"
proof (induction items arbitrary: st)
  case Nil
  then show ?case by simp
next
  case (Cons it items)
  show ?case
  proof (cases it)
    case ReadFail
    with Cons.prems show ?thesis by simp
  next
    case (Row row)
    with Cons.prems(1) have "extract_loop hdrs pc sc st (Row row # items) = Inr st'" by simp
    then obtain st1 where s1: "row_step hdrs pc sc st row = Inr st1"
      and l: "extract_loop hdrs pc sc st1 items = Inr st'"
      by (rule extract_loop_Row)
    from s1 Cons.prems(2) have "distinct (map fst (players st1))"
      by (cases rule: row_step_cases) (auto simp: distinct_update)
    from Cons.IH [OF l this] show ?thesis .
  qed
qed

lemma extract_loop_untouched:
  "extract_loop hdrs pc sc st items = Inr st' \<Longrightarrow>
   \<forall>row stats. Row row \<in> set items \<longrightarrow> row_record hdrs pc sc row \<noteq> Inr (Some (k, stats)) \<Longrightarrow>
   map_of (players st') k = map_of (players st) k"
proof (induction items arbitrary: st)
  case Nil
  then show ?case by simp
next
  case (Cons it items)
  show ?case
  proof (cases it)
    case ReadFail
    with Cons.prems show ?thesis by simp
  next
    case (Row row)
    with Cons.prems(1) have "extract_loop hdrs pc sc st (Row row # items) = Inr st'" by simp
    then obtain st1 where s1: "row_step hdrs pc sc st row = Inr st1"
      and l: "extract_loop hdrs pc sc st1 items = Inr st'"
      by (rule extract_loop_Row)
    from Cons.prems(2) have later: "\<forall>row stats. Row row \<in> set items \<longrightarrow>
        row_record hdrs pc sc row \<noteq> Inr (Some (k, stats))" by simp
    from Cons.prems(2) Row have this_row: "\<forall>stats. row_record hdrs pc sc row \<noteq> Inr (Some (k, stats))"
      by simp
    from s1 this_row have "map_of (players st1) k = map_of (players st) k"
      by (cases rule: row_step_cases) (auto simp: update_conv')
    with Cons.IH [OF l later] show ?thesis by simp
  qed
qed

lemma distinct_one_entry:
  "distinct (map fst al) \<Longrightarrow> map_of al k = Some v \<Longrightarrow> filter (\<lambda>e. fst e = k) al = [(k, v)]"
proof (induction al)
  case Nil
  then show ?case by simp
next
  case (Cons e al)
  show ?case
  proof (cases "fst e = k")
    case True
    with Cons.prems have "e = (k, v)" by (cases e) simp
    moreover from True Cons.prems(1) have "k \<notin> fst ` set al" by auto
    then have "filter (\<lambda>e. fst e = k) al = []" by (auto simp: filter_empty_conv)
    ultimately show ?thesis by simp
  next
    case False
    with Cons show ?thesis by (cases e) auto
  qed
qed

section \<open>The frames of \<open>extract_fantasy_data\<close>\<close>

lemma clean_chunk_append:
  "clean_chunk str pc (xs @ ys) = opt_append (clean_chunk str pc xs) (clean_chunk str pc ys)"
  by (simp add: clean_chunk_def opt_append_def)

lemma filter_positions_append:
  "filter_positions posc flt (xs @ ys) =
     opt_append (filter_positions posc flt xs) (filter_positions posc flt ys)"
  by (simp add: filter_positions_def opt_append_def split: option.splits)

lemma filter_year_append:
  "filter_year yc flt (xs @ ys) = opt_append (filter_year yc flt xs) (filter_year yc flt ys)"
  by (simp add: filter_year_def opt_append_def split: option.splits)

lemma process_chunk_append:
  "process_chunk str pc posc flt yc (xs @ ys) =
     opt_append (process_chunk str pc posc flt yc xs) (process_chunk str pc posc flt yc ys)"
proof (cases "clean_chunk str pc xs")
  case None
  then show ?thesis by (simp add: process_chunk_def clean_chunk_append opt_append_def)
next
  case cx: (Some a1)
  show ?thesis
  proof (cases "clean_chunk str pc ys")
    case None
    with cx show ?thesis
      by (simp add: process_chunk_def clean_chunk_append opt_append_def split: option.splits)
  next
    case cy: (Some b1)
    show ?thesis
    proof (cases "filter_positions posc flt a1")
      case None
      with cx cy show ?thesis
        by (simp add: process_chunk_def clean_chunk_append filter_positions_append opt_append_def)
    next
      case px: (Some a2)
      show ?thesis
      proof (cases "filter_positions posc flt b1")
        case None
        with cx cy px show ?thesis
          by (simp add: process_chunk_def clean_chunk_append filter_positions_append
                opt_append_def split: option.splits)
      next
        case py: (Some b2)
        with cx cy px show ?thesis
          by (simp add: process_chunk_def clean_chunk_append filter_positions_append
                filter_year_append opt_append_def)
      qed
    qed
  qed
qed

lemma filter_positions_Nil: "filter_positions posc flt [] = Some []"
  by (simp add: filter_positions_def split: option.splits)

lemma filter_year_Nil: "filter_year yc flt [] = Some []"
  by (simp add: filter_year_def split: option.splits)

lemma process_chunk_Nil: "process_chunk str pc posc flt yc [] = Some []"
  by (simp add: process_chunk_def clean_chunk_def filter_positions_Nil filter_year_Nil)

lemma chunk_loop_frames:
  "chunk_loop str pc posc flt yc st (map Chunk cs) =
     (case process_chunk str pc posc flt yc (concat cs) of
        None \<Rightarrow> None
      | Some recs \<Rightarrow>
          Some \<lparr>all_data = all_data st @ recs, chunk_num = chunk_num st + length cs,
                fantasy_rows = fantasy_rows st + length recs\<rparr>)"
proof (induction cs arbitrary: st)
  case Nil
  show ?case by (simp add: process_chunk_Nil)
next
  case (Cons c cs)
  show ?case
    by (simp add: Cons.IH process_chunk_append opt_append_def split: option.splits)
qed

lemma chunk_loop_fail:
  "ChunkFail \<in> set chunks \<Longrightarrow> chunk_loop str pc posc flt yc st chunks = None"
proof (induction chunks arbitrary: st)
  case Nil
  then show ?case by simp
next
  case (Cons c chunks)
  then show ?case by (cases c) (auto split: option.splits)
qed

lemma no_fail_frames: "ChunkFail \<notin> set chunks \<Longrightarrow> \<exists>cs. chunks = map Chunk cs"
proof (induction chunks)
  case Nil
  then show ?case by simp
next
  case (Cons c chunks)
  then obtain cs where "chunks = map Chunk cs" by auto
  moreover from Cons.prems obtain x where "c = Chunk x" by (cases c) auto
  ultimately have "c # chunks = map Chunk (x # cs)" by simp
  then show ?case by (rule exI [of _ "x # cs"])
qed

lemma extract_fantasy_data_frames:
  "extract_fantasy_data str pc stat posc team flt yc (map Chunk cs) =
     process_chunk str pc posc flt yc (concat cs)"
  by (simp add: extract_fantasy_data_def chunk_loop_frames split: option.splits)

lemma extract_fantasy_data_Some:
  assumes "extract_fantasy_data str pc stat posc team flt yc chunks = Some recs"
  obtains cs where "chunks = map Chunk cs"
    and "process_chunk str pc posc flt yc (concat cs) = Some recs"
proof -
  have "ChunkFail \<notin> set chunks"
    using assms chunk_loop_fail [of chunks str pc posc flt yc]
    by (auto simp: extract_fantasy_data_def)
  then obtain cs where cs: "chunks = map Chunk cs" using no_fail_frames by blast
  with assms have "process_chunk str pc posc flt yc (concat cs) = Some recs"
    by (simp add: extract_fantasy_data_frames)
  with cs that show thesis by blast
qed






lemma process_chunk_kept:
  assumes "clean_chunk str pc chunk = Some cleaned"
    and "process_chunk str pc posc flt yc chunk = Some recs"
  shows "recs = filter (row_kept posc yc flt) cleaned"
proof -
  from assms obtain c2 where p: "filter_positions posc flt cleaned = Some c2"
    and y: "filter_year yc flt c2 = Some recs"
    by (auto simp: process_chunk_def split: option.splits)
  let ?P = "\<lambda>r. case (posc, positions flt) of
         (Some col, Some accepted) \<Rightarrow>
            col = [] \<or> (\<exists>s. map_of r col = Some (Txt s) \<and> s \<in> set accepted)
       | _ \<Rightarrow> True"
  let ?Y = "\<lambda>r. case (yc, year flt) of
         (Some col, Some y) \<Rightarrow>
            col = [] \<or> (\<exists>v. map_of r col = Some v \<and> v \<noteq> NaN \<and> y \<noteq> NaN \<and> v = y)
       | _ \<Rightarrow> True"
  have pos_eq: "position_ok col acc = (\<lambda>r. \<exists>s. map_of r col = Some (Txt s) \<and> s \<in> set acc)"
    for col acc
    by (rule ext) (auto simp: position_ok_def cell_isin_def split: option.splits cell.splits)
  have year_eq: "year_ok col y =
      (\<lambda>r. \<exists>v. map_of r col = Some v \<and> v \<noteq> NaN \<and> y \<noteq> NaN \<and> v = y)"
    for col and y :: "'a cell"
    by (rule ext) (auto simp: year_ok_def cell_eq_def split: option.splits)
  from p have c2: "c2 = filter ?P cleaned"
    by (auto simp: filter_positions_def pos_eq split: option.splits if_splits)
  from y have "recs = filter ?Y c2"
    by (auto simp: filter_year_def year_eq split: option.splits if_splits)
  with c2 show ?thesis
    by (simp add: row_kept_def [abs_def])
qed

section \<open>One record for a key\<close>

text \<open>
  C1, for \<open>extract_player_data\<close>. When two rows that are stored (long enough, key
  not blank) have the same stripped key and no stored row after them has it, the table
  holds exactly one record under that key, and it is the record built from the later row
  alone: nothing of the earlier row is left, also where the later row has empty cells.
\<close>

theorem last_row_wins:
  assumes run: "extract_player_data self pc sc (Row h # pre @ Row r1 # mid @ Row r2 # post) = Inr tbl"
    and r1: "row_record (headers self) pc sc r1 = Inr (Some (k, s1))"
    and r2: "row_record (headers self) pc sc r2 = Inr (Some (k, s2))"
    and post: "\<forall>row stats. Row row \<in> set post \<longrightarrow>
                 row_record (headers self) pc sc row \<noteq> Inr (Some (k, stats))"
  shows "map_of tbl k = Some s2 \<and> filter (\<lambda>e. fst e = k) tbl = [(k, s2)]"
proof -
  let ?H = "headers self"
  let ?init = "\<lparr>players = [], processed_rows = 0\<rparr>"
  from run obtain header rest st where f: "Row h # pre @ Row r1 # mid @ Row r2 # post = Row header # rest"
    and l: "extract_loop ?H pc sc ?init rest = Inr st" and t: "tbl = players st"
    by (rule extract_player_data_Inr)
  from f have rest: "rest = (pre @ Row r1 # mid) @ Row r2 # post" by simp
  from l rest obtain st1 where
    a: "extract_loop ?H pc sc ?init (pre @ Row r1 # mid) = Inr st1"
    and b: "extract_loop ?H pc sc st1 (Row r2 # post) = Inr st"
    by (auto simp: extract_loop_append split: sum.splits)
  from b obtain st2 where s2: "row_step ?H pc sc st1 r2 = Inr st2"
    and c: "extract_loop ?H pc sc st2 post = Inr st"
    by (rule extract_loop_Row)
  from s2 r2 have "map_of (players st2) k = Some s2"
    by (cases rule: row_step_cases) (auto simp: update_conv')
  with extract_loop_untouched [OF c post] t have m: "map_of tbl k = Some s2" by simp
  have "distinct (map fst (players st))"
    by (rule extract_loop_distinct [OF l]) simp
  with t m show ?thesis by (simp add: distinct_one_entry)
qed

theorem last_row_wins_witness:
  "extract_player_data
     \<lparr>csv_path = ''f'', headers = [''name'', ''team'', ''points''], row_count = 4,
      chunk_size = 10000\<rparr> 0 [1, 2]
     (Row [''name'', ''team'', ''points''] # [] @ Row [''Alice'', ''NYG'', ''10.5''] #
      [Row ['''', ''BUF'', ''5'']] @ Row [''Alice'', '''', ''12''] #
      [Row [''Bob'', ''BUF'', ''7'']])
   = Inr [(''Alice'', [(''name'', VStr ''Alice''), (''team'', VStr ''''), (''points'', VInt 12)]),
          (''Bob'', [(''name'', VStr ''Bob''), (''team'', VStr ''BUF''), (''points'', VInt 7)])] \<and>
   row_record [''name'', ''team'', ''points''] 0 [1, 2] [''Alice'', ''NYG'', ''10.5'']
   = Inr (Some (''Alice'', [(''name'', VStr ''Alice''), (''team'', VStr ''NYG''),
                            (''points'', VFloat (FDec False 105 (- 1)))])) \<and>
   map_of [(''Alice'', [(''name'', VStr ''Alice''), (''team'', VStr ''''), (''points'', VInt 12)]),
           (''Bob'', [(''name'', VStr ''Bob''), (''team'', VStr ''BUF''), (''points'', VInt 7)])]
      ''Alice''
   = Some [(''name'', VStr ''Alice''), (''team'', VStr ''''), (''points'', VInt 12)] \<and>
   filter (\<lambda>e. fst e = ''Alice'')
     [(''Alice'', [(''name'', VStr ''Alice''), (''team'', VStr ''''), (''points'', VInt 12)]),
      (''Bob'', [(''name'', VStr ''Bob''), (''team'', VStr ''BUF''), (''points'', VInt 7)])]
   = [(''Alice'', [(''name'', VStr ''Alice''), (''team'', VStr ''''), (''points'', VInt 12)])]"
proof -
  let ?self = "\<lparr>csv_path = ''f'', headers = [''name'', ''team'', ''points''], row_count = 4,
                chunk_size = 10000\<rparr>"
  let ?s1 = "[(''name'', VStr ''Alice''), (''team'', VStr ''NYG''),
              (''points'', VFloat (FDec False 105 (- 1)))]"
  let ?s2 = "[(''name'', VStr ''Alice''), (''team'', VStr ''''), (''points'', VInt 12)]"
  let ?sb = "[(''name'', VStr ''Bob''), (''team'', VStr ''BUF''), (''points'', VInt 7)]"
  have run: "extract_player_data ?self 0 [1, 2]
     (Row [''name'', ''team'', ''points''] # [] @ Row [''Alice'', ''NYG'', ''10.5''] #
      [Row ['''', ''BUF'', ''5'']] @ Row [''Alice'', '''', ''12''] #
      [Row [''Bob'', ''BUF'', ''7'']])
     = Inr [(''Alice'', ?s2), (''Bob'', ?sb)]"
    by code_simp
  have r1: "row_record (headers ?self) 0 [1, 2] [''Alice'', ''NYG'', ''10.5'']
            = Inr (Some (''Alice'', ?s1))"
    by code_simp
  have r2: "row_record (headers ?self) 0 [1, 2] [''Alice'', '''', ''12'']
            = Inr (Some (''Alice'', ?s2))"
    by code_simp
  have rb: "row_record (headers ?self) 0 [1, 2] [''Bob'', ''BUF'', ''7'']
            = Inr (Some (''Bob'', ?sb))"
    by code_simp
  have post: "\<forall>row stats. Row row \<in> set [Row [''Bob'', ''BUF'', ''7'']] \<longrightarrow>
                row_record (headers ?self) 0 [1, 2] row \<noteq> Inr (Some (''Alice'', stats))"
    using rb by simp
  from last_row_wins [OF run r1 r2 post] run r1 show ?thesis by simp
qed

text \<open>
  C1 as stated fails for \<open>extract_fantasy_data\<close>: its result is a list, and both rows
  of a repeated key stay in it.
\<close>

theorem fantasy_data_keeps_both_rows:
  "extract_fantasy_data str_int ''name'' [''points''] None None
     \<lparr>positions = None, year = None\<rparr> None
     [Chunk [[(''name'', Txt ''Alice''), (''points'', Num 10)],
             [(''name'', Txt ''Alice''), (''points'', Num 12)]]]
   = Some [[(''name'', Txt ''Alice''), (''points'', Num 10)],
           [(''name'', Txt ''Alice''), (''points'', Num 12)]]"
  by code_simp

section \<open>A failure of the reader\<close>

lemma extract_loop_fail:
  "ReadFail \<in> set items \<Longrightarrow> \<exists>e. extract_loop hdrs pc sc st items = Inl e"
proof (induction items arbitrary: st)
  case Nil
  then show ?case by simp
next
  case (Cons it items)
  show ?case
  proof (cases it)
    case ReadFail
    then show ?thesis by simp
  next
    case (Row row)
    with Cons.prems have "ReadFail \<in> set items" by simp
    with Cons.IH Row show ?thesis by (cases "row_step hdrs pc sc st row") auto
  qed
qed

lemma extract_player_data_fail:
  assumes "ReadFail \<in> set file"
  shows "\<exists>e. extract_player_data self pc sc file = Inl e"
proof (cases "py_getitem (headers self) pc")
  case (Inl e)
  then show ?thesis by (simp add: extract_player_data_def)
next
  case (Inr x)
  show ?thesis
  proof (cases "file")
    case Nil
    with assms show ?thesis by simp
  next
    case (Cons it rest)
    show ?thesis
    proof (cases it)
      case ReadFail
      with Inr Cons show ?thesis by (simp add: extract_player_data_def)
    next
      case (Row header)
      with assms Cons have "ReadFail \<in> set rest" by simp
      from extract_loop_fail [OF this] obtain e where
        "extract_loop (headers self) pc sc \<lparr>players = [], processed_rows = 0\<rparr> rest = Inl e"
        by blast
      with Inr Cons Row show ?thesis by (simp add: extract_player_data_def)
    qed
  qed
qed

text \<open>
  C3, as the code has it. A failure of the reader ends the extraction without a table:
  the exception leaves \<open>extract_player_data\<close>, whose local table is gone with it, and
  the handler of \<open>extract_fantasy_data\<close> returns \<open>None\<close>. What was accumulated
  before the failure is not handed to the caller.
\<close>

theorem failure_returns_no_partial_table:
  "(ReadFail \<in> set file \<longrightarrow> (\<exists>e. extract_player_data self pc sc file = Inl e)) \<and>
   (ChunkFail \<in> set chunks \<longrightarrow>
      extract_fantasy_data str pcol stat posc team flt yc chunks = None)"
  using extract_player_data_fail [of "file" self pc sc]
    chunk_loop_fail [of chunks str pcol posc flt yc]
  by (simp add: extract_fantasy_data_def)

theorem failure_returns_no_partial_table_witness:
  "ReadFail \<in> set [Row [''name'', ''points''], Row [''Alice'', ''10''], ReadFail] \<and>
   (\<exists>e. extract_player_data
          \<lparr>csv_path = ''f'', headers = [''name'', ''points''], row_count = 2,
           chunk_size = 10000\<rparr> 0 [1]
          [Row [''name'', ''points''], Row [''Alice'', ''10''], ReadFail] = Inl e) \<and>
   ChunkFail \<in> set [Chunk [[(''name'', Txt ''Alice''), (''points'', Num (10::int))]], ChunkFail] \<and>
   extract_fantasy_data str_int ''name'' [''points''] None None
     \<lparr>positions = None, year = None\<rparr> None
     [Chunk [[(''name'', Txt ''Alice''), (''points'', Num 10)]], ChunkFail] = None"
proof -
  have a: "ReadFail \<in> set [Row [''name'', ''points''], Row [''Alice'', ''10''], ReadFail]"
    by simp
  have b: "ChunkFail \<in> set [Chunk [[(''name'', Txt ''Alice''), (''points'', Num (10::int))]],
                            ChunkFail]"
    by simp
  from failure_returns_no_partial_table
         [of "[Row [''name'', ''points''], Row [''Alice'', ''10''], ReadFail]"
             "\<lparr>csv_path = ''f'', headers = [''name'', ''points''], row_count = 2,
               chunk_size = 10000\<rparr>" 0 "[1]"
             "[Chunk [[(''name'', Txt ''Alice''), (''points'', Num (10::int))]], ChunkFail]"
             str_int "''name''" "[''points'']" None None
             "\<lparr>positions = None, year = None\<rparr>" None] a b
  show ?thesis by blast
qed

text \<open>
  C3 as stated fails: after one good row the reader fails, and the result is the bare
  exception in one function and \<open>None\<close> in the other; the record of the good row is
  in neither.
\<close>

theorem failure_after_rows_counterexample:
  "extract_player_data
     \<lparr>csv_path = ''f'', headers = [''name'', ''points''], row_count = 2, chunk_size = 10000\<rparr>
     0 [1] [Row [''name'', ''points''], Row [''Alice'', ''10''], ReadFail] = Inl ReadError \<and>
   extract_fantasy_data str_int ''name'' [''points''] None None
     \<lparr>positions = None, year = None\<rparr> None
     [Chunk [[(''name'', Txt ''Alice''), (''points'', Num 10)]], ChunkFail] = None"
  by code_simp

section \<open>The chunk size\<close>





section \<open>Short rows\<close>

lemma short_row_guard:
  assumes "int (length row) \<le> pc \<or> (\<exists>i\<in>set sc. int (length row) \<le> i)"
  shows "int (length row) \<le> max pc (py_max_default sc 0)"
  using assms max_default_ge [of _ sc 0] by fastforce

text \<open>
  C5, as the code has it. A row with too few fields to reach the key column or one of
  the selected columns leaves the state of the loop as it was, and the run goes on: the
  result is the one of the file without that row. The code keeps no count of skipped
  rows; \<open>processed_rows\<close>, its only counter, counts the stored rows.
\<close>

theorem short_row_is_skipped:
  assumes "int (length row) \<le> pc \<or> (\<exists>i\<in>set sc. int (length row) \<le> i)"
  shows "row_step hdrs pc sc st row = Inr st \<and>
         extract_player_data self pc sc (Row h # pre @ Row row # post) =
         extract_player_data self pc sc (Row h # pre @ post)"
proof -
  have none: "row_record hdrs' pc sc row = Inr None" for hdrs'
    by (rule short_row_record [OF short_row_guard [OF assms]])
  show ?thesis
    using row_step_skip [OF none] extract_player_data_skip [OF none] by simp
qed

theorem short_row_is_skipped_witness:
  "(int (length [''Bob'', ''BUF'']) \<le> 0 \<or> (\<exists>i\<in>set [1, 2]. int (length [''Bob'', ''BUF'']) \<le> i)) \<and>
   row_step [''name'', ''team'', ''points''] 0 [1, 2]
     \<lparr>players = [(''Alice'', [(''name'', VStr ''Alice'')])], processed_rows = 1\<rparr>
     [''Bob'', ''BUF'']
   = Inr \<lparr>players = [(''Alice'', [(''name'', VStr ''Alice'')])], processed_rows = 1\<rparr> \<and>
   extract_player_data
     \<lparr>csv_path = ''f'', headers = [''name'', ''team'', ''points''], row_count = 2,
      chunk_size = 10000\<rparr> 0 [1, 2]
     (Row [''name'', ''team'', ''points''] # [Row [''Alice'', ''NYG'', ''10'']] @
      Row [''Bob'', ''BUF''] # [Row [''Cy'', ''BUF'', ''3'']])
   = extract_player_data
     \<lparr>csv_path = ''f'', headers = [''name'', ''team'', ''points''], row_count = 2,
      chunk_size = 10000\<rparr> 0 [1, 2]
     (Row [''name'', ''team'', ''points''] # [Row [''Alice'', ''NYG'', ''10'']] @
      [Row [''Cy'', ''BUF'', ''3'']])"
proof -
  have h: "int (length [''Bob'', ''BUF'']) \<le> 0 \<or>
           (\<exists>i\<in>set [1, 2]. int (length [''Bob'', ''BUF'']) \<le> i)"
    by simp
  from short_row_is_skipped [OF h] h show ?thesis by blast
qed

text \<open>
  C5 as stated fails on the counter: a short row changes nothing in the state, and the
  function returns the table alone.
\<close>

theorem short_row_no_counter:
  "row_step [''name'', ''team'', ''points''] 0 [1, 2] \<lparr>players = [], processed_rows = 0\<rparr>
      [''Alice'', ''NYG'']
     = Inr \<lparr>players = [], processed_rows = 0\<rparr> \<and>
   extract_player_data
     \<lparr>csv_path = ''f'', headers = [''name'', ''team'', ''points''], row_count = 1,
      chunk_size = 10000\<rparr>
     0 [1, 2] [Row [''name'', ''team'', ''points''], Row [''Alice'', ''NYG'']] = Inr []"
  by code_simp

section \<open>Blank keys\<close>

lemma clean_chunk_blank:
  assumes "map_of r0 pcol = Some v" and "v = NaN \<or> py_strip (py_str str v) = []"
  shows "clean_chunk str pcol [r0] = Some []"
  using assms
  by (auto simp: clean_chunk_def has_column_def notna_def strip_column_def not_empty_def
        update_conv')

lemma process_chunk_blank:
  assumes "map_of r0 pcol = Some v" and "v = NaN \<or> py_strip (py_str str v) = []"
  shows "process_chunk str pcol posc flt yc (fpre @ r0 # fpost) =
         process_chunk str pcol posc flt yc (fpre @ fpost)"
proof -
  have one: "process_chunk str pcol posc flt yc [r0] = Some []"
    using clean_chunk_blank [OF assms]
    by (simp add: process_chunk_def filter_positions_Nil filter_year_Nil)
  have "process_chunk str pcol posc flt yc (fpre @ [r0] @ fpost) =
        opt_append (process_chunk str pcol posc flt yc fpre)
          (opt_append (process_chunk str pcol posc flt yc [r0])
             (process_chunk str pcol posc flt yc fpost))"
    by (simp only: process_chunk_append)
  also have "\<dots> = process_chunk str pcol posc flt yc (fpre @ fpost)"
    by (simp add: one process_chunk_append opt_append_def split: option.splits)
  finally show ?thesis by simp
qed

lemma clean_chunk_rows:
  assumes "clean_chunk str pcol chunk = Some cleaned" and "r \<in> set cleaned"
  shows "\<exists>k r0 v. r0 \<in> set chunk \<and> map_of r0 pcol = Some v \<and> v \<noteq> NaN \<and>
           k = py_strip (py_str str v) \<and> k \<noteq> [] \<and> map_of r pcol = Some (Txt k)"
proof -
  from assms(1) have all: "list_all (has_column pcol) chunk"
    and c: "cleaned = filter (not_empty pcol)
              (map (strip_column str pcol) (filter (notna pcol) chunk))"
    by (auto simp: clean_chunk_def split: if_splits)
  from assms(2) c obtain r0 where r0: "r0 \<in> set chunk" "notna pcol r0"
    and r: "r = strip_column str pcol r0" and ne: "not_empty pcol r"
    by auto
  from all r0(1) obtain v where v: "map_of r0 pcol = Some v"
    by (auto simp: list_all_iff has_column_def)
  with r0(2) have "v \<noteq> NaN" by (simp add: notna_def)
  moreover from v r have m: "map_of r pcol = Some (Txt (py_strip (py_str str v)))"
    by (simp add: strip_column_def update_conv')
  moreover from m ne have "py_strip (py_str str v) \<noteq> []" by (auto simp: not_empty_def)
  ultimately show ?thesis using r0(1) v by blast
qed

lemma process_chunk_clean:
  assumes "process_chunk str pcol posc flt yc chunk = Some recs"
  obtains cleaned where "clean_chunk str pcol chunk = Some cleaned"
    and "recs = filter (row_kept posc yc flt) cleaned"
proof -
  from assms obtain cleaned where c: "clean_chunk str pcol chunk = Some cleaned"
    by (auto simp: process_chunk_def split: option.splits)
  from process_chunk_kept [OF c assms] c that show thesis by blast
qed

lemma extract_fantasy_data_keys:
  assumes "extract_fantasy_data str pcol stat posc team flt yc chunks = Some recs"
    and "r \<in> set recs"
  shows "\<exists>k c r0 v. Chunk c \<in> set chunks \<and> r0 \<in> set c \<and> map_of r0 pcol = Some v \<and>
           v \<noteq> NaN \<and> k = py_strip (py_str str v) \<and> k \<noteq> [] \<and>
           map_of r pcol = Some (Txt k)"
proof -
  from assms(1) obtain cs where cs: "chunks = map Chunk cs"
    and p: "process_chunk str pcol posc flt yc (concat cs) = Some recs"
    by (rule extract_fantasy_data_Some)
  from p obtain cleaned where c: "clean_chunk str pcol (concat cs) = Some cleaned"
    and k: "recs = filter (row_kept posc yc flt) cleaned"
    by (rule process_chunk_clean)
  from k assms(2) have "r \<in> set cleaned" by simp
  from clean_chunk_rows [OF c this] obtain k r0 v where
    r0: "r0 \<in> set (concat cs)" and rest: "map_of r0 pcol = Some v" "v \<noteq> NaN"
      "k = py_strip (py_str str v)" "k \<noteq> []" "map_of r pcol = Some (Txt k)"
    by blast
  from r0 obtain c where "c \<in> set cs" "r0 \<in> set c" by auto
  with cs have "Chunk c \<in> set chunks" by simp
  with \<open>r0 \<in> set c\<close> rest show ?thesis by blast
qed

text \<open>
  C6, as the code has it. In \<open>extract_player_data\<close> a row whose key cell is blank
  after stripping leaves the state as it was, and every key of the table is the stripped,
  non-empty key cell of a row of the file. In \<open>extract_fantasy_data\<close> a row whose
  key is missing or blank changes nothing in the records of its frame, and every record
  has as its key the stripped, non-empty text of the key cell of a row that was read.
  Neither function counts the rows it drops.
\<close>

theorem blank_key_rows_dropped:
  "(py_getitem row pc = Inr cell \<and> py_strip cell = [] \<longrightarrow>
      row_step hdrs pc sc st row = Inr st \<and>
      extract_player_data self pc sc (Row h # pre @ Row row # post) =
      extract_player_data self pc sc (Row h # pre @ post)) \<and>
   (extract_player_data self pc sc csv = Inr tbl \<and> k \<in> fst ` set tbl \<longrightarrow>
      k \<noteq> [] \<and>
      (\<exists>row' cell'. Row row' \<in> set csv \<and> py_getitem row' pc = Inr cell' \<and>
         k = py_strip cell')) \<and>
   (map_of brow pcol = Some v \<and> (v = NaN \<or> py_strip (py_str str v) = []) \<longrightarrow>
      process_chunk str pcol posc flt yc (fpre @ brow # fpost) =
      process_chunk str pcol posc flt yc (fpre @ fpost)) \<and>
   (extract_fantasy_data str pcol stat posc team flt yc chunks = Some recs \<and> r \<in> set recs \<longrightarrow>
      (\<exists>k' c r1 v'. Chunk c \<in> set chunks \<and> r1 \<in> set c \<and> map_of r1 pcol = Some v' \<and>
         v' \<noteq> NaN \<and> k' = py_strip (py_str str v') \<and> k' \<noteq> [] \<and>
         map_of r pcol = Some (Txt k')))"
proof (intro conjI impI)
  assume a: "py_getitem row pc = Inr cell \<and> py_strip cell = []"
  then have none: "row_record hdrs' pc sc row = Inr None" for hdrs'
    by (simp add: blank_key_row_record)
  show "row_step hdrs pc sc st row = Inr st"
    by (rule row_step_skip [OF none])
  show "extract_player_data self pc sc (Row h # pre @ Row row # post) =
        extract_player_data self pc sc (Row h # pre @ post)"
    by (rule extract_player_data_skip [OF none])
next
  assume a: "extract_player_data self pc sc csv = Inr tbl \<and> k \<in> fst ` set tbl"
  from extract_player_data_keys [of self pc sc csv tbl k] a
  show "k \<noteq> []"
    and "\<exists>row' cell'. Row row' \<in> set csv \<and> py_getitem row' pc = Inr cell' \<and> k = py_strip cell'"
    by blast+
next
  assume "map_of brow pcol = Some v \<and> (v = NaN \<or> py_strip (py_str str v) = [])"
  then show "process_chunk str pcol posc flt yc (fpre @ brow # fpost) =
             process_chunk str pcol posc flt yc (fpre @ fpost)"
    using process_chunk_blank by blast
next
  assume "extract_fantasy_data str pcol stat posc team flt yc chunks = Some recs \<and> r \<in> set recs"
  then show "\<exists>k' c r1 v'. Chunk c \<in> set chunks \<and> r1 \<in> set c \<and> map_of r1 pcol = Some v' \<and>
         v' \<noteq> NaN \<and> k' = py_strip (py_str str v') \<and> k' \<noteq> [] \<and>
         map_of r pcol = Some (Txt k')"
    using extract_fantasy_data_keys by blast
qed

theorem blank_key_rows_dropped_witness:
  "py_getitem [''  '', ''5''] 0 = Inr ''  '' \<and> py_strip ''  '' = [] \<and>
   row_step [''name'', ''points''] 0 [1]
     \<lparr>players = [(''Alice'', [(''name'', VStr ''Alice'')])], processed_rows = 1\<rparr> [''  '', ''5'']
   = Inr \<lparr>players = [(''Alice'', [(''name'', VStr ''Alice'')])], processed_rows = 1\<rparr> \<and>
   extract_player_data
     \<lparr>csv_path = ''f'', headers = [''name'', ''points''], row_count = 2, chunk_size = 10000\<rparr>
     0 [1] [Row [''name'', ''points''], Row ['' Alice '', ''10'']]
   = Inr [(''Alice'', [(''name'', VStr ''Alice''), (''points'', VInt 10)])] \<and>
   ''Alice'' \<in> fst ` set [(''Alice'', [(''name'', VStr ''Alice''), (''points'', VInt 10)])] \<and>
   ''Alice'' \<noteq> [] \<and>
   (\<exists>row' cell'. Row row' \<in> set [Row [''name'', ''points''], Row ['' Alice '', ''10'']] \<and>
      py_getitem row' 0 = Inr cell' \<and> ''Alice'' = py_strip cell') \<and>
   map_of [(''name'', Txt ''  ''), (''points'', Num (5::int))] ''name'' = Some (Txt ''  '') \<and>
   process_chunk str_int ''name'' None \<lparr>positions = None, year = None\<rparr> None
     ([[(''name'', Txt ''Al''), (''points'', Num (1::int))]] @
      [(''name'', Txt ''  ''), (''points'', Num (5::int))] # [])
   = process_chunk str_int ''name'' None \<lparr>positions = None, year = None\<rparr> None
     ([[(''name'', Txt ''Al''), (''points'', Num (1::int))]] @ []) \<and>
   extract_fantasy_data str_int ''name'' [''points''] None None
     \<lparr>positions = None, year = None\<rparr> None
     [Chunk [[(''name'', Txt '' Al ''), (''points'', Num (1::int))],
             [(''name'', Txt ''  ''), (''points'', Num (5::int))]]]
   = Some [[(''name'', Txt ''Al''), (''points'', Num (1::int))]] \<and>
   (\<exists>k' c r1 v'.
      Chunk c \<in> set [Chunk [[(''name'', Txt '' Al ''), (''points'', Num (1::int))],
                             [(''name'', Txt ''  ''), (''points'', Num (5::int))]]] \<and>
      r1 \<in> set c \<and> map_of r1 ''name'' = Some v' \<and> v' \<noteq> NaN \<and>
      k' = py_strip (py_str str_int v') \<and> k' \<noteq> [] \<and>
      map_of [(''name'', Txt ''Al''), (''points'', Num (1::int))] ''name'' = Some (Txt k'))"
proof -
  let ?self = "\<lparr>csv_path = ''f'', headers = [''name'', ''points''], row_count = 2,
                chunk_size = 10000\<rparr>"
  let ?file = "[Row [''name'', ''points''], Row ['' Alice '', ''10'']]"
  let ?tbl = "[(''Alice'', [(''name'', VStr ''Alice''), (''points'', VInt 10)])]"
  let ?flt = "\<lparr>positions = None, year = None\<rparr> :: int filters"
  let ?chunks = "[Chunk [[(''name'', Txt '' Al ''), (''points'', Num (1::int))],
                         [(''name'', Txt ''  ''), (''points'', Num 5)]]]"
  let ?recs = "[[(''name'', Txt ''Al''), (''points'', Num (1::int))]]"
  have a1: "py_getitem [''  '', ''5''] 0 = Inr ''  '' \<and> py_strip ''  '' = []"
    by code_simp
  have a2: "extract_player_data ?self 0 [1] ?file = Inr ?tbl \<and> ''Alice'' \<in> fst ` set ?tbl"
    by code_simp
  have a3: "map_of [(''name'', Txt ''  ''), (''points'', Num (5::int))] ''name'' = Some (Txt ''  '')
            \<and> (Txt ''  '' = (NaN :: int cell) \<or> py_strip (py_str str_int (Txt ''  '')) = [])"
    by code_simp
  have a4: "extract_fantasy_data str_int ''name'' [''points''] None None ?flt None ?chunks
            = Some ?recs \<and> [(''name'', Txt ''Al''), (''points'', Num 1)] \<in> set ?recs"
    by code_simp
  note T = blank_key_rows_dropped
    [where row = "[''  '', ''5'']" and pc = 0 and cell = "''  ''"
       and hdrs = "[''name'', ''points'']" and sc = "[1]"
       and st = "\<lparr>players = [(''Alice'', [(''name'', VStr ''Alice'')])], processed_rows = 1\<rparr>"
       and h = "[''name'', ''points'']" and pre = "[]" and post = "[]"
       and self = ?self and csv = ?file and tbl = ?tbl and k = "''Alice''"
       and brow = "[(''name'', Txt ''  ''), (''points'', Num 5)]" and pcol = "''name''"
       and v = "Txt ''  ''" and str = str_int and posc = None and flt = ?flt and yc = None
       and fpre = "[[(''name'', Txt ''Al''), (''points'', Num 1)]]" and fpost = "[]"
       and stat = "[''points'']" and team = None and chunks = ?chunks and recs = ?recs
       and r = "[(''name'', Txt ''Al''), (''points'', Num 1)]"]
  note T1 = T [THEN conjunct1, THEN mp, OF a1]
  note T2 = T [THEN conjunct2, THEN conjunct1, THEN mp, OF a2]
  note T3 = T [THEN conjunct2, THEN conjunct2, THEN conjunct1, THEN mp, OF a3]
  note T4 = T [THEN conjunct2, THEN conjunct2, THEN conjunct2, THEN mp, OF a4]
  have a3': "map_of [(''name'', Txt ''  ''), (''points'', Num (5::int))] ''name'' = Some (Txt ''  '')"
    by (rule a3 [THEN conjunct1])
  have a4': "extract_fantasy_data str_int ''name'' [''points''] None None ?flt None ?chunks
            = Some ?recs"
    by (rule a4 [THEN conjunct1])
  show ?thesis
    using a1 T1 a2 T2 a3' T3 a4' T4
    by (elim conjE, intro conjI) assumption+
qed

text \<open>
  C6 as stated fails on the counter: a row with a blank key changes no counter of
  either loop (\<open>chunk_num\<close> counts the frames).
\<close>

theorem blank_key_no_counter:
  "row_step [''name'', ''team'', ''points''] 0 [1, 2] \<lparr>players = [], processed_rows = 0\<rparr>
      [''   '', ''BUF'', ''5'']
     = Inr \<lparr>players = [], processed_rows = 0\<rparr> \<and>
   chunk_loop str_int ''name'' None \<lparr>positions = None, year = None\<rparr> None
     \<lparr>all_data = [], chunk_num = 0, fantasy_rows = 0\<rparr>
     [Chunk [[(''name'', Txt ''   ''), (''points'', Num 5)]]]
     = Some \<lparr>all_data = [], chunk_num = 1, fantasy_rows = 0\<rparr>"
  by code_simp

section \<open>The row filter\<close>

lemma row_kept_no_filter:
  "positions flt = None \<Longrightarrow> year flt = None \<Longrightarrow> row_kept posc yc flt r"
  by (simp add: row_kept_def split: option.splits)

text \<open>
  C7, as the code has it. The filters of \<open>extract_fantasy_data\<close> run on the frame
  after its keys were cleaned, on cells that the reader has typed already. A cleaned row
  is kept exactly when the position cell, as read and not stripped, is a text of the
  accepted list (where that filter is given) and the year cell equals the wanted year
  (where that filter is given); without filters every cleaned row is kept. The rows
  dropped are not counted: the loop adds the number of kept records to its row counter.
\<close>

theorem filters_after_cleaning:
  assumes "clean_chunk str pcol chunk = Some cleaned"
    and "process_chunk str pcol posc flt yc chunk = Some recs"
  shows "recs = filter (row_kept posc yc flt) cleaned \<and>
         (positions flt = None \<and> year flt = None \<longrightarrow> recs = cleaned) \<and>
         chunk_loop str pcol posc flt yc st [Chunk chunk] =
           Some \<lparr>all_data = all_data st @ recs, chunk_num = chunk_num st + 1,
                 fantasy_rows = fantasy_rows st + length recs\<rparr>"
proof -
  have k: "recs = filter (row_kept posc yc flt) cleaned"
    by (rule process_chunk_kept [OF assms])
  have "recs = cleaned" if "positions flt = None \<and> year flt = None"
    using that k by (simp add: row_kept_no_filter)
  moreover have "chunk_loop str pcol posc flt yc st [Chunk chunk] =
           Some \<lparr>all_data = all_data st @ recs, chunk_num = chunk_num st + 1,
                 fantasy_rows = fantasy_rows st + length recs\<rparr>"
    using assms(2) by simp
  ultimately show ?thesis using k by blast
qed

theorem filters_after_cleaning_witness:
  "clean_chunk str_int ''name''
     [[(''name'', Txt '' Al ''), (''pos'', Txt ''QB'')],
      [(''name'', Txt ''Bo''), (''pos'', Txt ''K'')]]
   = Some [[(''name'', Txt ''Al''), (''pos'', Txt ''QB'')],
           [(''name'', Txt ''Bo''), (''pos'', Txt ''K'')]] \<and>
   process_chunk str_int ''name'' (Some ''pos'') \<lparr>positions = Some [''QB'', ''RB''], year = None\<rparr>
     None
     [[(''name'', Txt '' Al ''), (''pos'', Txt ''QB'')],
      [(''name'', Txt ''Bo''), (''pos'', Txt ''K'')]]
   = Some [[(''name'', Txt ''Al''), (''pos'', Txt ''QB'')]] \<and>
   ([[(''name'', Txt ''Al''), (''pos'', Txt ''QB'')]] :: int row list)
   = filter (row_kept (Some ''pos'') None \<lparr>positions = Some [''QB'', ''RB''], year = None\<rparr>)
       [[(''name'', Txt ''Al''), (''pos'', Txt ''QB'')],
        [(''name'', Txt ''Bo''), (''pos'', Txt ''K'')]] \<and>
   chunk_loop str_int ''name'' (Some ''pos'') \<lparr>positions = Some [''QB'', ''RB''], year = None\<rparr>
     None \<lparr>all_data = [], chunk_num = 0, fantasy_rows = 0\<rparr>
     [Chunk [[(''name'', Txt '' Al ''), (''pos'', Txt ''QB'')],
             [(''name'', Txt ''Bo''), (''pos'', Txt ''K'')]]]
   = Some \<lparr>all_data = [[(''name'', Txt ''Al''), (''pos'', Txt ''QB'')]],
           chunk_num = 1, fantasy_rows = 1\<rparr>"
proof -
  let ?chunk = "[[(''name'', Txt '' Al ''), (''pos'', Txt ''QB'')],
                 [(''name'', Txt ''Bo''), (''pos'', Txt ''K'')]] :: int row list"
  let ?flt = "\<lparr>positions = Some [''QB'', ''RB''], year = None\<rparr> :: int filters"
  have c: "clean_chunk str_int ''name'' ?chunk
           = Some [[(''name'', Txt ''Al''), (''pos'', Txt ''QB'')],
                   [(''name'', Txt ''Bo''), (''pos'', Txt ''K'')]]"
    by code_simp
  have p: "process_chunk str_int ''name'' (Some ''pos'') ?flt None ?chunk
           = Some [[(''name'', Txt ''Al''), (''pos'', Txt ''QB'')]]"
    by code_simp
  note T = filters_after_cleaning
    [OF c p, of "\<lparr>all_data = [], chunk_num = 0, fantasy_rows = 0\<rparr>"]
  note k = T [THEN conjunct1]
  have l: "chunk_loop str_int ''name'' (Some ''pos'') ?flt None
        \<lparr>all_data = [], chunk_num = 0, fantasy_rows = 0\<rparr> [Chunk ?chunk]
      = Some \<lparr>all_data = [[(''name'', Txt ''Al''), (''pos'', Txt ''QB'')]],
               chunk_num = 1, fantasy_rows = 1\<rparr>"
    using T [THEN conjunct2, THEN conjunct2]
    by (simp only: fantasy_state.simps append_Nil add_0 list.size One_nat_def)
  show ?thesis
    using c p k l by (intro conjI) assumption+
qed

text \<open>
  C7 as stated fails: the position \<open>QB\<close> with a leading blank is in the accepted
  set once stripped, yet the row is dropped, and no counter records it.
\<close>

theorem untrimmed_position_discarded:
  "py_strip '' QB'' \<in> set [''QB''] \<and>
   chunk_loop str_int ''name'' (Some ''pos'') \<lparr>positions = Some [''QB''], year = None\<rparr> None
     \<lparr>all_data = [], chunk_num = 0, fantasy_rows = 0\<rparr>
     [Chunk [[(''name'', Txt ''Al''), (''pos'', Txt '' QB'')]]]
     = Some \<lparr>all_data = [], chunk_num = 1, fantasy_rows = 0\<rparr>"
  by code_simp

section \<open>Detection of the name column\<close>

lemma classify_column_rule:
  assumes "name_rule str df seen d" and "map_of df col = Some cd"
  shows "name_rule str df (insert col seen) (classify_column str col cd d)"
  unfolding name_rule_def
proof (intro allI impI)
  fix c
  assume kw: "any_keyword name_keywords (py_lower c)"
  from assms(1) kw have old:
    "(c \<in> set (player_columns d)) =
       (c \<in> seen \<and> (\<exists>cd. map_of df c = Some cd \<and> series_dtype cd = DObject \<and>
          looks_like_names str cd))"
    "c \<notin> set (stat_columns d)" "c \<notin> set (position_columns d)" "c \<notin> set (team_columns d)"
    by (simp_all add: name_rule_def)
  let ?d = "classify_column str col cd d"
  show "(c \<in> set (player_columns ?d)) =
          (c \<in> insert col seen \<and>
           (\<exists>cd. map_of df c = Some cd \<and> series_dtype cd = DObject \<and>
                 looks_like_names str cd)) \<and>
        c \<notin> set (stat_columns ?d) \<and> c \<notin> set (position_columns ?d) \<and>
        c \<notin> set (team_columns ?d)"
  proof (cases "c = col")
    case True
    with kw assms(2) old show ?thesis
      by (auto simp: classify_column_def Let_def)
  next
    case False
    with old show ?thesis
      by (auto simp: classify_column_def Let_def)
  qed
qed

lemma detect_loop_rule:
  "detect_loop str df cols d = Inr d' \<Longrightarrow> name_rule str df seen d \<Longrightarrow>
   name_rule str df (seen \<union> set cols) d'"
proof (induction cols arbitrary: d seen)
  case Nil
  then show ?case by simp
next
  case (Cons col cols)
  from Cons.prems(1) obtain cd where cd: "map_of df col = Some cd"
    and l: "detect_loop str df cols (classify_column str col cd d) = Inr d'"
    by (auto split: option.splits)
  from Cons.IH [OF l classify_column_rule [OF Cons.prems(2) cd]]
  show ?case by simp
qed

text \<open>
  C8, as the code has it. A column whose name has one of the name keywords is kept as a
  player column exactly when it is of dtype object and at least one of its first five
  values that are not NaN contains a blank; otherwise it is put in no list at all.
\<close>

theorem name_column_kept_iff:
  assumes "detect_player_columns str hdrs (Some df) = Inr d"
    and "col \<in> set hdrs"
    and "any_keyword name_keywords (py_lower col)"
    and "map_of df col = Some col_data"
  shows "(col \<in> set (player_columns d)) =
           (series_dtype col_data = DObject \<and>
            (\<exists>v \<in> set (take 5 (filter (\<lambda>v. v \<noteq> NaN) (series_values col_data))).
               CHR '' '' \<in> set (py_str str v))) \<and>
         col \<notin> set (stat_columns d) \<and> col \<notin> set (position_columns d) \<and>
         col \<notin> set (team_columns d)"
proof -
  let ?none = "\<lparr>player_columns = [], stat_columns = [], position_columns = [],
                team_columns = []\<rparr>"
  from assms(1) have l: "detect_loop str df hdrs ?none = Inr d"
    by (simp add: detect_player_columns_def)
  have "name_rule str df {} ?none" by (simp add: name_rule_def)
  from detect_loop_rule [OF l this] have "name_rule str df (set hdrs) d" by simp
  with assms(2,3,4) show ?thesis
    by (simp add: name_rule_def looks_like_names_def list_ex_iff)
qed

theorem name_column_kept_iff_witness:
  "detect_player_columns str_int [''player_name'', ''player_id'']
     (Some [(''player_name'',
             \<lparr>series_dtype = DObject,
              series_values = [Txt ''John Smith'', NaN, Txt ''X'']\<rparr>),
            (''player_id'',
             \<lparr>series_dtype = DObject, series_values = [Txt ''a1'', Txt ''b2'']\<rparr>)])
   = Inr \<lparr>player_columns = [''player_name''], stat_columns = [], position_columns = [],
          team_columns = []\<rparr> \<and>
   ''player_id'' \<in> set [''player_name'', ''player_id''] \<and>
   any_keyword name_keywords (py_lower ''player_id'') \<and>
   ''player_id'' \<notin> set [''player_name''] \<and>
   \<not> (\<exists>v \<in> set (take 5 (filter (\<lambda>v. v \<noteq> NaN) [Txt ''a1'', Txt ''b2''])).
         CHR '' '' \<in> set (py_str str_int v))"
proof -
  let ?df = "[(''player_name'',
             \<lparr>series_dtype = DObject,
              series_values = [Txt ''John Smith'', NaN, Txt ''X'']\<rparr>),
            (''player_id'',
             \<lparr>series_dtype = DObject, series_values = [Txt ''a1'', Txt ''b2'']\<rparr>)]
            :: (string \<times> int series) list"
  let ?d = "\<lparr>player_columns = [''player_name''], stat_columns = [], position_columns = [],
             team_columns = []\<rparr>"
  have d: "detect_player_columns str_int [''player_name'', ''player_id''] (Some ?df) = Inr ?d"
    by code_simp
  have h: "''player_id'' \<in> set [''player_name'', ''player_id'']" by simp
  have kw: "any_keyword name_keywords (py_lower ''player_id'')" by code_simp
  have m: "map_of ?df ''player_id''
           = Some \<lparr>series_dtype = DObject, series_values = [Txt ''a1'', Txt ''b2'']\<rparr>"
    by simp
  from name_column_kept_iff [OF d h kw m] d h kw show ?thesis by simp
qed

text \<open>
  C8 as stated fails: one value of three contains a blank, which is no majority, and the
  column is kept.
\<close>

theorem one_spaced_sample_suffices:
  "detect_player_columns str_int [''player_name'']
     (Some [(''player_name'',
             \<lparr>series_dtype = DObject,
              series_values = [Txt ''John Smith'', Txt ''X'', Txt ''Y'']\<rparr>)])
   = Inr \<lparr>player_columns = [''player_name''], stat_columns = [], position_columns = [],
          team_columns = []\<rparr> \<and>
   \<not> spec_majority [''John Smith'', ''X'', ''Y'']"
  by code_simp

section \<open>Probing the file\<close>

lemma sample_rows_take:
  "i \<le> 3 \<Longrightarrow> sample_rows i rest = (ReadFail \<notin> set (take (4 - i) rest))"
proof (induction rest arbitrary: i)
  case Nil
  show ?case by simp
next
  case (Cons it rest)
  show ?case
  proof (cases it)
    case ReadFail
    with Cons.prems show ?thesis by (simp add: take_Cons')
  next
    case (Row row)
    show ?thesis
    proof (cases "i = 3")
      case True
      with Row show ?thesis by simp
    next
      case False
      with Cons.prems have i: "i + 1 \<le> 3" by simp
      have "4 - i = Suc (4 - (i + 1))" using i by simp
      with Cons.IH [OF i] Row False show ?thesis by simp
    qed
  qed
qed

lemma analyze_file_ok:
  "fst (analyze_file self file lt) =
     (\<exists>header rest. file = Row header # rest \<and> ReadFail \<notin> set (take 4 rest))"
proof (cases "file")
  case Nil
  then show ?thesis by (simp add: analyze_file_def)
next
  case (Cons it rest)
  then show ?thesis
    using sample_rows_take [of 0 rest]
    by (cases it) (simp_all add: analyze_file_def Let_def)
qed

lemma analyze_file_headers:
  "headers (snd (analyze_file self (Row header # rest) lt)) = header"
  by (simp add: analyze_file_def Let_def split: option.splits)

lemma main_stops:
  "\<not> fst (analyze_file (init_processor path) file lt) \<Longrightarrow>
   main path (Some file) lt pc sc = Inr None"
  by (simp add: main_def split_beta)

text \<open>
  C9, as the code has it. \<open>analyze_file\<close> succeeds exactly when the reader yields a
  header row and does not fail on the up to four data rows read while sampling; the
  header is then in \<open>self.headers\<close>. When it fails, for an empty file or a header that
  cannot be read among others, \<open>main\<close> returns before any extraction.
\<close>

theorem analyze_file_result:
  "fst (analyze_file self file lt) =
     (\<exists>header rest. file = Row header # rest \<and> ReadFail \<notin> set (take 4 rest)) \<and>
   headers (snd (analyze_file self (Row header # rest) lt)) = header \<and>
   (\<not> fst (analyze_file (init_processor path) file lt) \<longrightarrow>
      main path (Some file) lt pc sc = Inr None)"
proof (intro conjI impI)
  show "fst (analyze_file self file lt) =
     (\<exists>header rest. file = Row header # rest \<and> ReadFail \<notin> set (take 4 rest))"
    by (rule analyze_file_ok)
  show "headers (snd (analyze_file self (Row header # rest) lt)) = header"
    by (rule analyze_file_headers)
  show "main path (Some file) lt pc sc = Inr None"
    if "\<not> fst (analyze_file (init_processor path) file lt)"
    using that by (rule main_stops)
qed

theorem analyze_file_result_witness:
  "fst (analyze_file (init_processor ''f'')
          [Row [''name'', ''points''], Row [''Alice'', ''10'']] (Some 2)) \<and>
   headers (snd (analyze_file (init_processor ''f'')
          (Row [''name'', ''points''] # [Row [''Alice'', ''10'']]) (Some 2)))
     = [''name'', ''points''] \<and>
   \<not> fst (analyze_file (init_processor ''f'') [] None) \<and>
   main ''f'' (Some []) None 0 [1] = Inr None"
proof -
  have ok: "\<exists>header rest. [Row [''name'', ''points''], Row [''Alice'', ''10'']] = Row header # rest
              \<and> ReadFail \<notin> set (take 4 rest)"
    by simp
  have bad: "\<not> (\<exists>header rest. [] = Row header # rest \<and> ReadFail \<notin> set (take 4 rest))"
    by simp
  note A = analyze_file_result
    [of "init_processor ''f''" "[Row [''name'', ''points''], Row [''Alice'', ''10'']]" "Some 2"
        "[''name'', ''points'']" "[Row [''Alice'', ''10'']]" "''f''" 0 "[1]"]
  note B = analyze_file_result
    [of "init_processor ''f''" "[]" None "[]" "[]" "''f''" 0 "[1]"]
  have 1: "fst (analyze_file (init_processor ''f'')
          [Row [''name'', ''points''], Row [''Alice'', ''10'']] (Some 2))"
    unfolding A [THEN conjunct1] by (rule ok)
  note 2 = A [THEN conjunct2, THEN conjunct1]
  have 3: "\<not> fst (analyze_file (init_processor ''f'') [] None)"
    unfolding B [THEN conjunct1] by (rule bad)
  note 4 = B [THEN conjunct2, THEN conjunct2, THEN mp, OF 3]
  show ?thesis
    using 1 2 3 4 by (intro conjI) assumption+
qed

text \<open>
  C9 as stated fails: the header is read, the reader fails on the first data row, and
  the analysis reports failure.
\<close>

theorem valid_header_unreadable_sample:
  "analyze_file (init_processor ''f'') [Row [''name'', ''points''], ReadFail] (Some 2) =
     (False, \<lparr>csv_path = ''f'', headers = [''name'', ''points''], row_count = 0,
              chunk_size = 10000\<rparr>) \<and>
   main ''f'' (Some [Row [''name'', ''points''], ReadFail]) (Some 2) 0 [1] = Inr None"
  by code_simp

end
